theory Spec2Isabelle
  imports Complex_Main "HOL-Library.Log_Nat"
begin

section \<open>The room server of the boredom dial (server/index.js)\<close>

text \<open>
  The server keeps one registry \<open>rooms\<close>, a JavaScript \<open>Map\<close> from room identifiers to
  room objects; every room object holds a \<open>Map\<close> from participant identifiers to
  participant objects. The handlers of the file (timer callbacks, HTTP handlers, WebSocket
  handlers) run to completion one after the other, so each is a function from the state
  before to the state after (and to the response, where there is one).

  Modelling decisions, all of them visible in the definitions below:
  \<^item> a \<open>Map\<close> is an association list in insertion order with the operations of \<open>Map\<close>
    (\<open>get\<close>, \<open>has\<close>, \<open>set\<close>, \<open>delete\<close>, \<open>size\<close>); \<open>set\<close> on a key that is present
    replaces the value in place, as \<open>Map.prototype.set\<close> does;
  \<^item> a JavaScript number is a value of \<open>number\<close>: a finite double, \<open>Infinity\<close>,
    \<open>-Infinity\<close> or \<open>NaN\<close>. A finite double is the rational it denotes, and \<open>+\<close>,
    \<open>-\<close>, \<open>*\<close>, \<open>/\<close> round their exact result to the nearest double, as IEEE 754
    arithmetic does. The two zeros are one value: no operation of the program tells them
    apart;
  \<^item> what the platform supplies is a parameter of the handler that uses it: the clock
    (\<open>new Date()\<close>, \<open>Date.now()\<close>), the random sources (\<open>crypto.randomBytes\<close>,
    \<open>Math.random\<close>), \<open>JSON.parse\<close> and the query parameters of the request URL;
  \<^item> \<open>broadcastToRoom\<close> and \<open>console.log\<close> only read the state and write to sockets or
    to the log; they are not part of the state transformers, except where building the
    line to log can throw (the room name of \<open>POST /api/rooms\<close>, which comes from the
    request; every other logged value is a string or a number of the server's own).
\<close>

subsection \<open>JavaScript numbers\<close>

datatype number = Fin rat | PInf | NInf | NaN

text \<open>
  Rounding to the nearest double (IEEE 754 binary64, round to nearest, ties to even), on
  the rational the exact result is. \<open>ilog2 x\<close> is the exponent of a positive \<open>x\<close>, the
  \<open>e\<close> with \<open>2 powi e \<le> x < 2 powi (e + 1)\<close>. The doubles with the exponent \<open>e\<close> are
  multiples of \<open>2 powi (e - 52)\<close>, and the doubles below \<open>2 powi (- 1022)\<close> are the
  multiples of \<open>2 powi (- 1074)\<close>. A result that rounds to \<open>2 ^ 1024\<close> or beyond is an
  infinity.
\<close>

definition ilog2 :: "rat \<Rightarrow> int" where
  "ilog2 x = (let e0 = bitlen (fst (quotient_of x)) - bitlen (snd (quotient_of x))
              in if 2 powi e0 \<le> x then e0 else e0 - 1)"

definition round_half_even :: "rat \<Rightarrow> int" where
  "round_half_even m =
    (let f = \<lfloor>m\<rfloor>; d = m - of_int f
     in if d < 1 / 2 then f else if 1 / 2 < d then f + 1 else if even f then f else f + 1)"

definition nearest_double :: "rat \<Rightarrow> rat" where
  "nearest_double x =
    (if x = 0 then 0
     else let e = max (ilog2 \<bar>x\<bar>) (- 1022); q = 2 powi (e - 52)
          in of_int (round_half_even (x / q)) * q)"

definition to_double :: "rat \<Rightarrow> number" where
  "to_double x =
    (let y = nearest_double x
     in if 2 ^ 1024 \<le> \<bar>y\<bar> then (if 0 < y then PInf else NInf) else Fin y)"

text \<open>
  \<open>Math.round\<close> gives the nearest integer, ties upwards; \<open>Math.min\<close> and \<open>Math.max\<close>
  give one of their arguments. All three are exact on doubles.
\<close>

fun Math_round :: "number \<Rightarrow> number" where
  "Math_round (Fin q) = Fin (of_int \<lfloor>q + 1 / 2\<rfloor>)"
| "Math_round x = x"

fun Math_min :: "number \<Rightarrow> number \<Rightarrow> number" where
  "Math_min NaN _ = NaN"
| "Math_min _ NaN = NaN"
| "Math_min NInf _ = NInf"
| "Math_min _ NInf = NInf"
| "Math_min PInf y = y"
| "Math_min x PInf = x"
| "Math_min (Fin a) (Fin b) = Fin (min a b)"

fun Math_max :: "number \<Rightarrow> number \<Rightarrow> number" where
  "Math_max NaN _ = NaN"
| "Math_max _ NaN = NaN"
| "Math_max PInf _ = PInf"
| "Math_max _ PInf = PInf"
| "Math_max NInf y = y"
| "Math_max x NInf = x"
| "Math_max (Fin a) (Fin b) = Fin (max a b)"

fun num_neg :: "number \<Rightarrow> number" where
  "num_neg (Fin a) = Fin (- a)"
| "num_neg PInf = NInf"
| "num_neg NInf = PInf"
| "num_neg NaN = NaN"

text \<open>\<open>a + b\<close> on numbers: the sum of two finite numbers is rounded to the nearest double.\<close>

fun num_add :: "number \<Rightarrow> number \<Rightarrow> number" where
  "num_add NaN _ = NaN"
| "num_add _ NaN = NaN"
| "num_add (Fin a) (Fin b) = to_double (a + b)"
| "num_add PInf NInf = NaN"
| "num_add NInf PInf = NaN"
| "num_add PInf _ = PInf"
| "num_add NInf _ = NInf"
| "num_add (Fin a) y = y"

text \<open>\<open>a - b\<close> on numbers.\<close>

definition num_sub :: "number \<Rightarrow> number \<Rightarrow> number" where
  "num_sub a b = num_add a (num_neg b)"

text \<open>The sign of a number that is not \<open>NaN\<close>: \<open>-1\<close>, \<open>0\<close> or \<open>1\<close>.\<close>

fun num_sign :: "number \<Rightarrow> int" where
  "num_sign (Fin a) = (if a < 0 then - 1 else if a = 0 then 0 else 1)"
| "num_sign PInf = 1"
| "num_sign NInf = - 1"
| "num_sign NaN = 0"

definition signed_inf :: "int \<Rightarrow> number" where
  "signed_inf s = (if s = 0 then NaN else if s < 0 then NInf else PInf)"

text \<open>
  \<open>a * b\<close> on numbers: the product of two finite numbers is rounded to the nearest double;
  zero times an infinity is \<open>NaN\<close>.
\<close>

fun num_mul :: "number \<Rightarrow> number \<Rightarrow> number" where
  "num_mul NaN _ = NaN"
| "num_mul _ NaN = NaN"
| "num_mul (Fin a) (Fin b) = to_double (a * b)"
| "num_mul x y = signed_inf (num_sign x * num_sign y)"

text \<open>
  \<open>a / b\<close> on numbers: the quotient of two finite numbers is rounded to the nearest
  double. The only division of the program divides by the length of an array, so a zero
  divisor is the positive zero here.
\<close>

fun num_div :: "number \<Rightarrow> number \<Rightarrow> number" where
  "num_div NaN _ = NaN"
| "num_div _ NaN = NaN"
| "num_div (Fin a) (Fin b) =
     (if b = 0 then signed_inf (num_sign (Fin a)) else to_double (a / b))"
| "num_div (Fin a) _ = Fin 0"
| "num_div x (Fin b) = (if b < 0 then num_neg x else x)"
| "num_div _ _ = NaN"

subsection \<open>JSON values\<close>

text \<open>
  The values \<open>JSON.parse\<close> returns. The grammar of JSON has no literal for \<open>NaN\<close>; a
  number literal beyond the range of a double is read as an infinity (\<open>JSON.parse("1e999")\<close>
  is \<open>Infinity\<close>), so the numbers of a parsed value are the finite ones and the two
  infinities. An object is the list of its own properties.
\<close>

datatype json =
    JNull
  | JBool bool
  | JNum rat
  | JPosInf
  | JNegInf
  | JStr string
  | JArr "json list"
  | JObj "(string \<times> json) list"

text \<open>\<open>typeof v === 'number'\<close>, with the number when it holds.\<close>

fun as_number :: "json \<Rightarrow> number option" where
  "as_number (JNum q) = Some (Fin q)"
| "as_number JPosInf = Some PInf"
| "as_number JNegInf = Some NInf"
| "as_number _ = None"

text \<open>The truth value of a JSON value in a condition or under \<open>||\<close>.\<close>

fun truthy :: "json \<Rightarrow> bool" where
  "truthy JNull = False"
| "truthy (JBool b) = b"
| "truthy (JNum q) = (q \<noteq> 0)"
| "truthy (JStr s) = (s \<noteq> [])"
| "truthy _ = True"

datatype js_error = TypeError | SyntaxError

text \<open>
  Reading the property \<open>k\<close> of a parsed value: \<open>null\<close> throws a \<open>TypeError\<close>, an object
  gives its own property or \<open>undefined\<close> (here \<open>None\<close>), and every other parsed value has
  none of the properties the server reads (\<open>type\<close>, \<open>boredom\<close>, \<open>name\<close>).
\<close>

fun get_prop :: "json \<Rightarrow> string \<Rightarrow> js_error + json option" where
  "get_prop JNull k = Inl TypeError"
| "get_prop (JObj fs) k = Inr (map_of fs k)"
| "get_prop _ k = Inr None"

subsection \<open>The operations of a Map\<close>

definition Map_get :: "('k \<times> 'v) list \<Rightarrow> 'k \<Rightarrow> 'v option" where
  "Map_get m k = map_of m k"

definition Map_has :: "('k \<times> 'v) list \<Rightarrow> 'k \<Rightarrow> bool" where
  "Map_has m k = (map_of m k \<noteq> None)"

fun Map_set :: "('k \<times> 'v) list \<Rightarrow> 'k \<Rightarrow> 'v \<Rightarrow> ('k \<times> 'v) list" where
  "Map_set [] k v = [(k, v)]"
| "Map_set ((k', v') # m) k v =
     (if k' = k then (k, v) # m else (k', v') # Map_set m k v)"

definition Map_delete :: "('k \<times> 'v) list \<Rightarrow> 'k \<Rightarrow> ('k \<times> 'v) list" where
  "Map_delete m k = filter (\<lambda>e. fst e \<noteq> k) m"

definition Map_size :: "('k \<times> 'v) list \<Rightarrow> nat" where
  "Map_size m = length m"

subsection \<open>Rooms and participants\<close>

type_synonym socket = nat

record user =
  boredom :: number
  ws :: "socket option"
  isBot :: bool
  name :: json

record room =
  users :: "(string \<times> user) list"
  createdAt :: int
  room_name :: json
  isGlobal :: bool

type_synonym registry = "(string \<times> room) list"

definition GLOBAL_ROOM_ID :: string where
  "GLOBAL_ROOM_ID = ''global''"

record bot =
  bot_id :: string
  bot_name :: string
  bot_boredom :: number
  volatility :: number
  speed :: nat

definition bots :: "bot list" where
  "bots =
    [\<lparr>bot_id = ''bot-restless'', bot_name = ''Restless Rita'', bot_boredom = Fin 65,
      volatility = Fin 15, speed = 3000\<rparr>,
     \<lparr>bot_id = ''bot-chill'', bot_name = ''Chill Charlie'', bot_boredom = Fin 25,
      volatility = Fin 8, speed = 7000\<rparr>,
     \<lparr>bot_id = ''bot-moody'', bot_name = ''Moody Morgan'', bot_boredom = Fin 50,
      volatility = Fin 25, speed = 4000\<rparr>,
     \<lparr>bot_id = ''bot-sleepy'', bot_name = ''Sleepy Sam'', bot_boredom = Fin 80,
      volatility = Fin 10, speed = 10000\<rparr>]"

text \<open>The global room as the start of the file builds it, at time \<open>now\<close>.\<close>

definition globalRoom :: "int \<Rightarrow> room" where
  "globalRoom now =
    \<lparr>users = fold (\<lambda>b us. Map_set us (bot_id b)
                 \<lparr>boredom = bot_boredom b, ws = None, isBot = True, name = JStr (bot_name b)\<rparr>)
               bots [],
     createdAt = now, room_name = JStr ''Global Boredom'', isGlobal = True\<rparr>"

definition initial_rooms :: "int \<Rightarrow> registry" where
  "initial_rooms now = Map_set [] GLOBAL_ROOM_ID (globalRoom now)"

subsection \<open>getRoomStats\<close>

record individual =
  ind_id :: string
  ind_boredom :: number
  ind_isBot :: bool
  ind_name :: json

record stats =
  average :: number
  count :: nat
  individuals :: "individual list"
  roomName :: json
  roomId :: string

definition getRoomStats :: "registry \<Rightarrow> string \<Rightarrow> stats option" where
  "getRoomStats rooms rid =
    (case Map_get rooms rid of
       None \<Rightarrow> None
     | Some room \<Rightarrow>
         let entries = users room;
             vals = map (\<lambda>(_, u). boredom u) entries;
             cnt = length vals;
             avg = (if cnt > 0
                    then Math_round (num_div (foldl num_add (Fin 0) vals) (Fin (of_nat cnt)))
                    else Fin 50)
         in Some \<lparr>average = avg, count = cnt,
                  individuals = map (\<lambda>(i, u).
                     \<lparr>ind_id = i, ind_boredom = Math_round (boredom u),
                      ind_isBot = (isBot u \<or> False),
                      ind_name = (if truthy (name u) then name u else JNull)\<rparr>) entries,
                  roomName = room_name room, roomId = rid\<rparr>)"

subsection \<open>The simulated participants\<close>

text \<open>
  One run of the timer callback of the profile \<open>b\<close>; \<open>r\<close> is the value \<open>Math.random()\<close>
  returns in it. The literal \<open>0.1\<close> is the double nearest to one tenth; \<open>0.5\<close>, \<open>0\<close>
  and \<open>100\<close> are doubles. The callback writes the field \<open>boredom\<close> of the participant
  object in place, which leaves the object where it is in its table.
\<close>

definition bot_tick :: "bot \<Rightarrow> number \<Rightarrow> registry \<Rightarrow> registry" where
  "bot_tick b r rooms =
    (case Map_get rooms GLOBAL_ROOM_ID of
       None \<Rightarrow> rooms
     | Some room \<Rightarrow>
        (case Map_get (users room) (bot_id b) of
           None \<Rightarrow> rooms
         | Some usr \<Rightarrow>
             let drift = num_mul (num_sub (bot_boredom b) (boredom usr)) (to_double (1 / 10));
                 randomChange = num_mul (num_sub r (Fin (1 / 2))) (volatility b);
                 usr' = usr\<lparr>boredom :=
                          Math_max (Fin 0) (Math_min (Fin 100)
                            (num_add (num_add (boredom usr) drift) randomChange))\<rparr>
             in Map_set rooms GLOBAL_ROOM_ID
                  (room\<lparr>users := Map_set (users room) (bot_id b) usr'\<rparr>)))"

subsection \<open>The sweep of old empty rooms\<close>

text \<open>The participants of a room that have a socket (\<open>filter(u => u.ws)\<close>).\<close>

definition realUsers :: "room \<Rightarrow> user list" where
  "realUsers room = filter (\<lambda>u. ws u \<noteq> None) (map snd (users room))"

text \<open>
  One run of the sweep at time \<open>now\<close> (\<open>Date.now()\<close>, in milliseconds).
  \<open>Map.prototype.forEach\<close> visits every entry once, also when the callback deletes the
  entry it is visiting.
\<close>

definition cleanup_step :: "int \<Rightarrow> string \<times> room \<Rightarrow> registry \<Rightarrow> registry" where
  "cleanup_step now e rooms =
    (if fst e = GLOBAL_ROOM_ID then rooms
     else if length (realUsers (snd e)) = 0 \<and> now - createdAt (snd e) > 3600000
          then Map_delete rooms (fst e)
          else rooms)"

definition cleanup :: "int \<Rightarrow> registry \<Rightarrow> registry" where
  "cleanup now rooms = fold (cleanup_step now) rooms rooms"

subsection \<open>The HTTP server\<close>

record request =
  http_method :: string
  url :: string
  body :: string

datatype payload =
    NoBody
  | Health string nat nat
  | Created string json
  | Error string
  | RoomStats "stats option"

record response =
  code :: nat
  content :: payload

text \<open>
  The handler logs \<open>`Created room: ${roomId} - ${roomName}`\<close>, which converts the name to
  a string. The conversion of a parsed value throws a \<open>TypeError\<close> for an object with a
  property \<open>toString\<close> of its own (no parsed value is a function, so neither it nor
  \<open>valueOf\<close> yields a primitive), and for an array that holds such a value, since an array
  converts its elements (\<open>null\<close> apart); every other object is converted by
  \<open>Object.prototype.toString\<close>.
\<close>

fun to_string_throws :: "json \<Rightarrow> bool" where
  "to_string_throws (JObj fs) = (map_of fs ''toString'' \<noteq> None)"
| "to_string_throws (JArr xs) = list_ex to_string_throws xs"
| "to_string_throws _ = False"

text \<open>
  What a client reads of a value written by \<open>JSON.stringify\<close>: an infinite number is
  written as \<open>null\<close>.
\<close>

fun as_sent :: "json \<Rightarrow> json" where
  "as_sent JPosInf = JNull"
| "as_sent JNegInf = JNull"
| "as_sent (JArr xs) = JArr (map as_sent xs)"
| "as_sent (JObj fs) = JObj (map (\<lambda>(k, v). (k, as_sent v)) fs)"
| "as_sent v = v"

text \<open>
  The handler of \<open>POST /api/rooms\<close>, run when the body has arrived. \<open>JSON_parse\<close> is
  \<open>JSON.parse\<close>, \<open>rid\<close> the code \<open>generateRoomCode()\<close> draws and \<open>now\<close> the time. Every
  exception of the \<open>try\<close> block ends in the \<open>catch\<close>: the \<open>SyntaxError\<close> of the parser,
  the \<open>TypeError\<close> of \<open>data.name\<close> when \<open>data\<close> is \<open>null\<close>, and the \<open>TypeError\<close> of the
  log line, which comes after \<open>rooms.set\<close>. The content of the answer is what the client
  reads of it.
\<close>

definition create_room ::
  "(string \<Rightarrow> js_error + json) \<Rightarrow> string \<Rightarrow> int \<Rightarrow> registry \<Rightarrow> string
    \<Rightarrow> registry \<times> response" where
  "create_room JSON_parse rid now rooms bdy =
    (case JSON_parse (if bdy \<noteq> [] then bdy else ''{}'') of
       Inl err \<Rightarrow> (rooms, \<lparr>code = 400, content = Error ''Invalid request''\<rparr>)
     | Inr data \<Rightarrow>
        (case get_prop data ''name'' of
           Inl err \<Rightarrow> (rooms, \<lparr>code = 400, content = Error ''Invalid request''\<rparr>)
         | Inr nm \<Rightarrow>
             let roomName = (case nm of
                               Some n \<Rightarrow> if truthy n then n else JStr (''Room '' @ rid)
                             | None \<Rightarrow> JStr (''Room '' @ rid));
                 rooms' = Map_set rooms rid
                            \<lparr>users = [], createdAt = now, room_name = roomName,
                             isGlobal = False\<rparr>
             in if to_string_throws roomName
                then (rooms', \<lparr>code = 400, content = Error ''Invalid request''\<rparr>)
                else (rooms', \<lparr>code = 200, content = Created rid (as_sent roomName)\<rparr>)))"

text \<open>
  The statistics a client reads of \<open>JSON.stringify(stats)\<close>: the names are written as
  \<open>as_sent\<close> says. The numbers of the statistics are finite in every state the server
  reaches, and are written as they are.
\<close>

definition stats_as_sent :: "stats \<Rightarrow> stats" where
  "stats_as_sent st =
    st\<lparr>individuals := map (\<lambda>i. i\<lparr>ind_name := as_sent (ind_name i)\<rparr>) (individuals st),
       roomName := as_sent (roomName st)\<rparr>"

text \<open>
  The request handler. \<open>req.url.split('/')[3]\<close> of a URL that starts with
  \<open>/api/rooms/\<close> is what follows that prefix, up to the next slash.
\<close>

definition http_handler ::
  "(string \<Rightarrow> js_error + json) \<Rightarrow> string \<Rightarrow> int \<Rightarrow> registry \<Rightarrow> request
    \<Rightarrow> registry \<times> response" where
  "http_handler JSON_parse rid now rooms req =
    (if http_method req = ''OPTIONS'' then (rooms, \<lparr>code = 200, content = NoBody\<rparr>)
     else if url req = ''/health'' then
       (rooms, \<lparr>code = 200, content = Health ''ok'' (Map_size rooms)
                  (case getRoomStats rooms GLOBAL_ROOM_ID of
                     Some st \<Rightarrow> count st
                   | None \<Rightarrow> 0)\<rparr>)
     else if url req = ''/api/rooms'' \<and> http_method req = ''POST'' then
       create_room JSON_parse rid now rooms (body req)
     else if take 11 (url req) = ''/api/rooms/'' \<and> http_method req = ''GET'' then
       (let r = takeWhile (\<lambda>c. c \<noteq> CHR ''/'') (drop 11 (url req)) in
        case Map_get rooms r of
          Some room \<Rightarrow>
            (rooms, \<lparr>code = 200,
                     content = RoomStats (map_option stats_as_sent (getRoomStats rooms r))\<rparr>)
        | None \<Rightarrow> (rooms, \<lparr>code = 404, content = Error ''Room not found''\<rparr>))
     else (rooms, \<lparr>code = 404, content = NoBody\<rparr>))"

subsection \<open>The WebSocket server\<close>

text \<open>The test \<open>/^[A-Z0-9]+$/\<close>: one character or more, each a capital letter or a digit.\<close>

definition upper_alnum :: "char \<Rightarrow> bool" where
  "upper_alnum c = (c \<in> set ''ABCDEFGHIJKLMNOPQRSTUVWXYZ0123456789'')"

definition code_regex :: "string \<Rightarrow> bool" where
  "code_regex s = (s \<noteq> [] \<and> list_all upper_alnum s)"

text \<open>
  The room a new connection is put in: the registry after the lines that validate the
  room, and the identifier they settle on. \<open>room_param\<close> is
  \<open>url.searchParams.get('room')\<close>, \<open>None\<close> for \<open>null\<close>.
\<close>

definition resolve_room :: "registry \<Rightarrow> int \<Rightarrow> string option \<Rightarrow> registry \<times> string" where
  "resolve_room rooms now room_param =
    (let rid = (case room_param of
                  Some s \<Rightarrow> if s \<noteq> [] then s else GLOBAL_ROOM_ID
                | None \<Rightarrow> GLOBAL_ROOM_ID)
     in if \<not> Map_has rooms rid then
          (if length rid = 6 \<and> code_regex rid
           then (Map_set rooms rid
                   \<lparr>users = [], createdAt = now, room_name = JStr (''Room '' @ rid),
                    isGlobal = False\<rparr>, rid)
           else (rooms, GLOBAL_ROOM_ID))
        else (rooms, rid))"

text \<open>
  The connection handler up to the welcome message: the registry with the new participant
  \<open>uid\<close> (the identifier \<open>generateUserId()\<close> draws) on the socket \<open>sock\<close>, the room
  identifier and the statistics of the welcome message. Reading \<open>room.users\<close> of a room
  that \<open>rooms.get\<close> does not find throws.
\<close>

definition connection ::
  "registry \<Rightarrow> int \<Rightarrow> string \<Rightarrow> socket \<Rightarrow> string option \<Rightarrow> string option
    \<Rightarrow> js_error + registry \<times> string \<times> stats option" where
  "connection rooms now uid sock room_param name_param =
    (case resolve_room rooms now room_param of
       (rooms1, rid) \<Rightarrow>
        (case Map_get rooms1 rid of
           None \<Rightarrow> Inl TypeError
         | Some room \<Rightarrow>
             let userName = (case name_param of
                               Some s \<Rightarrow> if s \<noteq> [] then JStr s else JNull
                             | None \<Rightarrow> JNull);
                 rooms2 = Map_set rooms1 rid
                            (room\<lparr>users := Map_set (users room) uid
                               \<lparr>boredom = Fin 50, ws = Some sock, isBot = False,
                                name = userName\<rparr>\<rparr>)
             in Inr (rooms2, rid, getRoomStats rooms2 rid)))"

text \<open>
  The message handler of a connection works on the room object the connection was put
  in, which it holds by reference, and on its own participant identifier. The two
  branches return the room after them, or the exception they throw.
\<close>

definition handle_update :: "room \<Rightarrow> string \<Rightarrow> json \<Rightarrow> js_error + room" where
  "handle_update room uid message =
    (case get_prop message ''type'' of
       Inl err \<Rightarrow> Inl err
     | Inr ty \<Rightarrow>
        if ty \<noteq> Some (JStr ''update'') then Inr room
        else (case get_prop message ''boredom'' of
                Inl err \<Rightarrow> Inl err
              | Inr bv \<Rightarrow>
                 (case Option.bind bv as_number of
                    None \<Rightarrow> Inr room
                  | Some x \<Rightarrow>
                      let b = Math_max (Fin 0) (Math_min (Fin 100) (Math_round x)) in
                      (case Map_get (users room) uid of
                         None \<Rightarrow> Inr room
                       | Some usr \<Rightarrow>
                           Inr (room\<lparr>users :=
                                  Map_set (users room) uid (usr\<lparr>boredom := b\<rparr>)\<rparr>)))))"

text \<open>\<open>v.slice(0, 20)\<close>: strings and arrays have the method, other values throw.\<close>

fun slice_0_20 :: "json \<Rightarrow> js_error + json" where
  "slice_0_20 (JStr s) = Inr (JStr (take 20 s))"
| "slice_0_20 (JArr xs) = Inr (JArr (take 20 xs))"
| "slice_0_20 _ = Inl TypeError"

definition handle_setName :: "room \<Rightarrow> string \<Rightarrow> json \<Rightarrow> js_error + room" where
  "handle_setName room uid message =
    (case get_prop message ''type'' of
       Inl err \<Rightarrow> Inl err
     | Inr ty \<Rightarrow>
        if ty \<noteq> Some (JStr ''setName'') then Inr room
        else (case get_prop message ''name'' of
                Inl err \<Rightarrow> Inl err
              | Inr nv \<Rightarrow>
                 (case nv of
                    None \<Rightarrow> Inr room
                  | Some n \<Rightarrow>
                      if \<not> truthy n then Inr room
                      else (case Map_get (users room) uid of
                              None \<Rightarrow> Inr room
                            | Some usr \<Rightarrow>
                               (case slice_0_20 n of
                                  Inl err \<Rightarrow> Inl err
                                | Inr n' \<Rightarrow>
                                    Inr (room\<lparr>users :=
                                           Map_set (users room) uid (usr\<lparr>name := n'\<rparr>)\<rparr>))))))"

text \<open>
  The handler of \<open>message\<close>: an exception anywhere in the \<open>try\<close> block ends in the
  \<open>catch\<close>, with the room as it was when the exception was thrown.
\<close>

definition on_message ::
  "(string \<Rightarrow> js_error + json) \<Rightarrow> room \<Rightarrow> string \<Rightarrow> string \<Rightarrow> room" where
  "on_message JSON_parse room uid data =
    (case JSON_parse data of
       Inl err \<Rightarrow> room
     | Inr message \<Rightarrow>
        (case handle_update room uid message of
           Inl err \<Rightarrow> room
         | Inr room1 \<Rightarrow>
            (case handle_setName room1 uid message of
               Inl err \<Rightarrow> room1
             | Inr room2 \<Rightarrow> room2)))"

text \<open>The handler of \<open>close\<close>.\<close>

definition on_close :: "room \<Rightarrow> string \<Rightarrow> room" where
  "on_close room uid = room\<lparr>users := Map_delete (users room) uid\<rparr>"

subsection \<open>The arithmetic of the statistics and of a tick, on doubles\<close>

text \<open>
  The mean as \<open>getRoomStats\<close> computes it when no sum overflows: the values are added
  from the left, starting from 0, every sum is rounded to the nearest double, and so is
  the quotient of the total by the count.
\<close>

definition double_sum :: "rat list \<Rightarrow> rat" where
  "double_sum qs = foldl (\<lambda>a q. nearest_double (a + q)) 0 qs"

definition double_mean :: "rat list \<Rightarrow> rat" where
  "double_mean qs = nearest_double (double_sum qs / of_nat (length qs))"

text \<open>
  The value of \<open>user.boredom + drift + randomChange\<close> when no operation overflows, for
  the current value \<open>c\<close>, the target \<open>t\<close>, the volatility \<open>v\<close> and the draw \<open>r\<close>: every
  operation rounds to the nearest double, and \<open>0.1\<close> is the double nearest to one tenth.
\<close>

definition tick_double :: "rat \<Rightarrow> rat \<Rightarrow> rat \<Rightarrow> rat \<Rightarrow> rat" where
  "tick_double c t v r =
     nearest_double
       (nearest_double (c + nearest_double (nearest_double (t - c) * nearest_double (1 / 10)))
        + nearest_double (nearest_double (r - 1 / 2) * v))"

subsection \<open>Sample states\<close>

definition sample_users :: "(string \<times> user) list" where
  "sample_users =
    [(''bot-restless'', \<lparr>boredom = Fin (275 / 4), ws = None, isBot = True,
                          name = JStr ''Restless Rita''\<rparr>),
     (''0123456789abcdef'', \<lparr>boredom = Fin 50, ws = Some 7, isBot = False, name = JNull\<rparr>)]"

definition sample_room :: room where
  "sample_room = \<lparr>users = sample_users, createdAt = 1000,
                   room_name = JStr ''Room ABC123'', isGlobal = False\<rparr>"

definition sample_registry :: registry where
  "sample_registry =
    [(GLOBAL_ROOM_ID, globalRoom 0),
     (''AAAAAA'', \<lparr>users = [], createdAt = 0, room_name = JStr ''Room AAAAAA'',
                   isGlobal = False\<rparr>),
     (''ABC123'', sample_room)]"

text \<open>
  Two values of \<open>Math.random()\<close>, \<open>0.5333333333333332\<close> and \<open>0.633333333333332\<close>, the
  global room after the first tick of the first profile has stored \<open>x\<close>, and a room of two
  connections.
\<close>

definition draw_a :: rat where
  "draw_a = 300239975158033 / 562949953421312"

definition draw_b :: rat where
  "draw_b = 713069941000327 / 1125899906842624"

definition ticked_room :: "rat \<Rightarrow> room" where
  "ticked_room x =
    \<lparr>users =
       [(''bot-restless'', \<lparr>boredom = Fin x, ws = None, isBot = True,
                             name = JStr ''Restless Rita''\<rparr>),
        (''bot-chill'', \<lparr>boredom = Fin 25, ws = None, isBot = True,
                          name = JStr ''Chill Charlie''\<rparr>),
        (''bot-moody'', \<lparr>boredom = Fin 50, ws = None, isBot = True,
                          name = JStr ''Moody Morgan''\<rparr>),
        (''bot-sleepy'', \<lparr>boredom = Fin 80, ws = None, isBot = True,
                           name = JStr ''Sleepy Sam''\<rparr>)],
     createdAt = 0, room_name = JStr ''Global Boredom'', isGlobal = True\<rparr>"

definition sample_live_room :: room where
  "sample_live_room =
    \<lparr>users =
       [(''0123456789abcdef'', \<lparr>boredom = Fin 80, ws = Some 7, isBot = False, name = JNull\<rparr>),
        (''fedcba9876543210'', \<lparr>boredom = Fin 50, ws = Some 8, isBot = False,
                                 name = JStr ''Ada''\<rparr>)],
     createdAt = 1000, room_name = JStr ''Team Sync'', isGlobal = False\<rparr>"

text \<open>
  A fragment of \<open>JSON.parse\<close> for the sample requests: it reads four texts as
  \<open>JSON.parse\<close> does and rejects the rest.
\<close>

definition quoted :: "string \<Rightarrow> string" where
  "quoted s = CHR 0x22 # s @ [CHR 0x22]"

definition sample_update_text :: string where
  "sample_update_text =
     ''{'' @ quoted ''type'' @ '':'' @ quoted ''update'' @ '','' @ quoted ''boredom'' @ '':137.5}''"

definition sample_update :: json where
  "sample_update = JObj [(''type'', JStr ''update''), (''boredom'', JNum (275 / 2))]"

definition sample_blank_text :: string where
  "sample_blank_text = ''{'' @ quoted ''name'' @ '':'' @ quoted [] @ ''}''"

definition sample_parse :: "string \<Rightarrow> js_error + json" where
  "sample_parse s =
    (if s = ''{}'' then Inr (JObj [])
     else if s = ''null'' then Inr JNull
     else if s = sample_update_text then Inr sample_update
     else if s = sample_blank_text then Inr (JObj [(''name'', JStr [])])
     else Inl SyntaxError)"



text \<open>
  What the code keeps true of the registry: its keys are distinct (it is a \<open>Map\<close>), the
  global room is in it, and every other key is a room code, six characters that are
  capital letters or digits.
\<close>

definition registry_ok :: "registry \<Rightarrow> bool" where
  "registry_ok rooms =
    (distinct (map fst rooms) \<and> Map_has rooms GLOBAL_ROOM_ID
     \<and> (\<forall>k \<in> fst ` set rooms. k = GLOBAL_ROOM_ID \<or> (length k = 6 \<and> code_regex k)))"

section \<open>Properties\<close>

subsection \<open>Facts about the operations of a Map and about numbers\<close>

lemma Map_get_set: "Map_get (Map_set m k v) k' = (if k' = k then Some v else Map_get m k')"
  by (induction m) (auto simp: Map_get_def split: if_splits)

lemma Map_has_set: "Map_has (Map_set m k v) k' = (k' = k \<or> Map_has m k')"
  by (induction m) (auto simp: Map_has_def split: if_splits)

lemma Map_get_delete: "Map_get (Map_delete m k) k' = (if k' = k then None else Map_get m k')"
  by (induction m) (auto simp: Map_get_def Map_delete_def)

lemma keys_Map_set: "fst ` set (Map_set m k v) = insert k (fst ` set m)"
  by (induction m) (force split: if_splits)+

lemma distinct_Map_set: "distinct (map fst m) \<Longrightarrow> distinct (map fst (Map_set m k v))"
  by (induction m) (auto simp: keys_Map_set)

lemma length_Map_set:
  "length (Map_set m k v) = (if Map_has m k then length m else Suc (length m))"
  by (induction m) (auto simp: Map_has_def)

lemma Math_round_nearest:
  "\<exists>n::int. Math_round (Fin q) = Fin (of_int n) \<and> q - 1 / 2 < of_int n \<and> of_int n \<le> q + 1 / 2"
proof -
  have "of_int \<lfloor>q + 1 / 2\<rfloor> \<le> q + 1 / 2 \<and> q + 1 / 2 < of_int \<lfloor>q + 1 / 2\<rfloor> + 1"
    using floor_correct [of "q + 1 / 2"] by simp
  then show ?thesis by (intro exI [of _ "\<lfloor>q + 1 / 2\<rfloor>"]) auto
qed

subsection \<open>Facts about rounding to a double\<close>

text \<open>\<open>ilog2\<close> is the exponent: the floor of the binary logarithm.\<close>

lemma ilog2_bounds:
  assumes "0 < x"
  shows "2 powi (ilog2 x) \<le> x" and "x < 2 powi (ilog2 x + 1)"
proof -
  obtain a b where ab: "quotient_of x = (a, b)" by (cases "quotient_of x")
  then have b: "0 < b" by (rule quotient_of_denom_pos)
  from ab have x: "x = of_int a / of_int b" by (rule quotient_of_div)
  with assms b have a: "0 < a" by (simp add: zero_less_divide_iff)
  let ?la = "bitlen a" and ?lb = "bitlen b"
  from bitlen_bounds [OF a] have "2 ^ nat (?la - 1) \<le> a" "a < 2 ^ nat ?la" by simp_all
  then have "(of_int (2 ^ nat (?la - 1)) :: rat) \<le> of_int a" "(of_int a :: rat) < of_int (2 ^ nat ?la)"
    by (simp_all only: of_int_le_iff of_int_less_iff)
  then have a1: "(2::rat) ^ nat (?la - 1) \<le> of_int a" and a2: "(of_int a :: rat) < 2 ^ nat ?la"
    by simp_all
  from bitlen_bounds [OF b] have "2 ^ nat (?lb - 1) \<le> b" "b < 2 ^ nat ?lb" by simp_all
  then have "(of_int (2 ^ nat (?lb - 1)) :: rat) \<le> of_int b" "(of_int b :: rat) < of_int (2 ^ nat ?lb)"
    by (simp_all only: of_int_le_iff of_int_less_iff)
  then have b1: "(2::rat) ^ nat (?lb - 1) \<le> of_int b" and b2: "(of_int b :: rat) < 2 ^ nat ?lb"
    by simp_all
  from a have la: "1 \<le> ?la" by (auto simp: bitlen_alt_def)
  from b have lb: "1 \<le> ?lb" by (auto simp: bitlen_alt_def)
  have pa1: "(2::rat) powi (?la - 1) = 2 ^ nat (?la - 1)" using la by (simp add: power_int_def)
  have pa2: "(2::rat) powi ?la = 2 ^ nat ?la" using la by (simp add: power_int_def)
  have pb1: "(2::rat) powi (?lb - 1) = 2 ^ nat (?lb - 1)" using lb by (simp add: power_int_def)
  have pb2: "(2::rat) powi ?lb = 2 ^ nat ?lb" using lb by (simp add: power_int_def)
  have bpos: "(0::rat) < of_int b" using b by simp
  have low: "(2::rat) powi (?la - ?lb - 1) \<le> x"
  proof -
    have "(2::rat) powi (?la - ?lb - 1) = 2 powi (?la - 1) / 2 powi ?lb"
      by (simp add: power_int_diff [symmetric] algebra_simps)
    also have "\<dots> \<le> of_int a / of_int b"
      unfolding pa1 pb2 using a1 b2 bpos a by (intro frac_le) simp_all
    finally show ?thesis by (simp add: x)
  qed
  have up: "x < (2::rat) powi (?la - ?lb + 1)"
  proof -
    have "of_int a / of_int b < (2::rat) powi ?la / 2 powi (?lb - 1)"
      unfolding pa2 pb1 using a2 b1 bpos a by (intro frac_less) simp_all
    also have "\<dots> = 2 powi (?la - ?lb + 1)"
      by (simp add: power_int_diff [symmetric] algebra_simps)
    finally show ?thesis by (simp add: x)
  qed
  have e: "ilog2 x = (if 2 powi (?la - ?lb) \<le> x then ?la - ?lb else ?la - ?lb - 1)"
    by (simp add: ilog2_def ab Let_def)
  show "2 powi (ilog2 x) \<le> x" using low by (simp add: e)
  show "x < 2 powi (ilog2 x + 1)" using up by (auto simp: e not_le)
qed

lemma round_half_even_cases:
  "round_half_even m = \<lfloor>m\<rfloor> \<or> round_half_even m = \<lfloor>m\<rfloor> + 1"
  by (simp add: round_half_even_def Let_def)

lemma round_half_even_of_int [simp]: "round_half_even (of_int j) = j"
  by (simp add: round_half_even_def Let_def)

lemma round_half_even_le:
  assumes "m \<le> of_int j"
  shows "round_half_even m \<le> j"
proof (cases "m = of_int j")
  case True
  then show ?thesis by simp
next
  case False
  with assms have "m < of_int j" by simp
  then have "\<lfloor>m\<rfloor> < j" by (simp add: floor_less_iff)
  with round_half_even_cases [of m] show ?thesis by auto
qed

lemma round_half_even_ge:
  assumes "of_int j \<le> m"
  shows "j \<le> round_half_even m"
proof -
  from assms have "j \<le> \<lfloor>m\<rfloor>" by (simp add: le_floor_iff)
  with round_half_even_cases [of m] show ?thesis by auto
qed

lemma round_half_even_error: "\<bar>of_int (round_half_even m) - m\<bar> \<le> 1 / 2"
proof -
  let ?f = "\<lfloor>m\<rfloor>"
  have f: "of_int ?f \<le> m" "m < of_int ?f + 1"
    by (simp_all add: floor_correct [of m, simplified])
  consider (lo) "m - of_int ?f < 1 / 2" | (hi) "1 / 2 < m - of_int ?f" | (tie) "m - of_int ?f = 1 / 2"
    by linarith
  then show ?thesis
  proof cases
    case lo
    then have "round_half_even m = ?f" by (simp add: round_half_even_def Let_def)
    with lo f show ?thesis by simp
  next
    case hi
    then have "round_half_even m = ?f + 1" by (simp add: round_half_even_def Let_def)
    with hi f show ?thesis by simp
  next
    case tie
    from round_half_even_cases [of m] show ?thesis
    proof
      assume "round_half_even m = ?f"
      with tie show ?thesis by simp
    next
      assume "round_half_even m = ?f + 1"
      with tie show ?thesis by simp
    qed
  qed
qed


lemma nearest_double_scale:
  assumes "x \<noteq> 0" and "\<bar>x\<bar> \<le> 2 powi k" and "- 1022 \<le> k"
  obtains e :: int and n :: nat where "e \<le> k"
    and "nearest_double x = of_int (round_half_even (x / 2 powi (e - 52))) * 2 powi (e - 52)"
    and "(2::rat) powi (k - 52) = 2 powi (e - 52) * 2 ^ n"
proof -
  let ?l = "ilog2 \<bar>x\<bar>"
  let ?e = "max ?l (- 1022)"
  from assms(1) have "0 < \<bar>x\<bar>" by simp
  then have "2 powi ?l \<le> \<bar>x\<bar>" by (rule ilog2_bounds)
  with assms(2) have le: "(2::rat) powi ?l \<le> 2 powi k" by simp
  have "?l \<le> k"
  proof (rule ccontr)
    assume "\<not> ?l \<le> k"
    then have "k < ?l" by simp
    then have "(2::rat) powi k < 2 powi ?l" by (intro power_int_strict_increasing) simp_all
    with le show False by simp
  qed
  with assms(3) have ek: "?e \<le> k" by simp
  have nd: "nearest_double x
              = of_int (round_half_even (x / 2 powi (?e - 52))) * 2 powi (?e - 52)"
    using assms(1) by (simp add: nearest_double_def Let_def)
  have "(2::rat) powi (k - 52) = 2 powi ((?e - 52) + (k - ?e))" by simp
  also have "\<dots> = 2 powi (?e - 52) * 2 powi (k - ?e)"
    by (rule power_int_add) simp
  also have "(2::rat) powi (k - ?e) = 2 ^ nat (k - ?e)"
    using ek by (simp add: power_int_def)
  finally have "(2::rat) powi (k - 52) = 2 powi (?e - 52) * 2 ^ nat (k - ?e)" .
  with ek nd show thesis by (rule that)
qed

lemma nearest_double_le_grid:
  assumes "\<bar>x\<bar> \<le> 2 powi k" and "- 1022 \<le> k" and "x \<le> of_int j * 2 powi (k - 52)"
  shows "nearest_double x \<le> of_int j * 2 powi (k - 52)"
proof (cases "x = 0")
  case True
  with assms(3) show ?thesis by (simp add: nearest_double_def)
next
  case False
  from nearest_double_scale [OF False assms(1,2)] obtain e :: int and n :: nat where
    nd: "nearest_double x = of_int (round_half_even (x / 2 powi (e - 52))) * 2 powi (e - 52)"
    and sc: "(2::rat) powi (k - 52) = 2 powi (e - 52) * 2 ^ n"
    by blast
  let ?q = "(2::rat) powi (e - 52)"
  have q: "0 < ?q" by simp
  have g: "of_int j * 2 powi (k - 52) = of_int (j * 2 ^ n) * ?q"
    by (simp add: sc)
  from assms(3) have "x \<le> of_int (j * 2 ^ n) * ?q" by (simp only: g)
  with q have "x / ?q \<le> of_int (j * 2 ^ n)" by (simp add: pos_divide_le_eq)
  then have "round_half_even (x / ?q) \<le> j * 2 ^ n" by (rule round_half_even_le)
  then have "(of_int (round_half_even (x / ?q)) :: rat) \<le> of_int (j * 2 ^ n)"
    by (simp only: of_int_le_iff)
  with q have "of_int (round_half_even (x / ?q)) * ?q \<le> of_int (j * 2 ^ n) * ?q"
    by (intro mult_right_mono) simp_all
  then show ?thesis by (simp only: nd g)
qed

lemma nearest_double_ge_grid:
  assumes "\<bar>x\<bar> \<le> 2 powi k" and "- 1022 \<le> k" and "of_int j * 2 powi (k - 52) \<le> x"
  shows "of_int j * 2 powi (k - 52) \<le> nearest_double x"
proof (cases "x = 0")
  case True
  with assms(3) show ?thesis by (simp add: nearest_double_def)
next
  case False
  from nearest_double_scale [OF False assms(1,2)] obtain e :: int and n :: nat where
    nd: "nearest_double x = of_int (round_half_even (x / 2 powi (e - 52))) * 2 powi (e - 52)"
    and sc: "(2::rat) powi (k - 52) = 2 powi (e - 52) * 2 ^ n"
    by blast
  let ?q = "(2::rat) powi (e - 52)"
  have q: "0 < ?q" by simp
  have g: "of_int j * 2 powi (k - 52) = of_int (j * 2 ^ n) * ?q"
    by (simp add: sc)
  from assms(3) have "of_int (j * 2 ^ n) * ?q \<le> x" by (simp only: g)
  with q have "of_int (j * 2 ^ n) \<le> x / ?q" by (simp add: pos_le_divide_eq)
  then have "j * 2 ^ n \<le> round_half_even (x / ?q)" by (rule round_half_even_ge)
  then have "(of_int (j * 2 ^ n) :: rat) \<le> of_int (round_half_even (x / ?q))"
    by (simp only: of_int_le_iff)
  with q have "of_int (j * 2 ^ n) * ?q \<le> of_int (round_half_even (x / ?q)) * ?q"
    by (intro mult_right_mono) simp_all
  then show ?thesis by (simp only: nd g)
qed

lemma nearest_double_error:
  assumes "\<bar>x\<bar> \<le> 2 powi k" and "- 1022 \<le> k"
  shows "\<bar>nearest_double x - x\<bar> \<le> 2 powi (k - 53)"
proof (cases "x = 0")
  case True
  then show ?thesis by (simp add: nearest_double_def)
next
  case False
  from nearest_double_scale [OF False assms(1,2)] obtain e :: int and n :: nat where
    ek: "e \<le> k"
    and nd: "nearest_double x = of_int (round_half_even (x / 2 powi (e - 52))) * 2 powi (e - 52)"
    by blast
  let ?q = "(2::rat) powi (e - 52)"
  have q: "0 < ?q" by simp
  have "nearest_double x - x = (of_int (round_half_even (x / ?q)) - x / ?q) * ?q"
    using q by (simp add: nd algebra_simps)
  then have "\<bar>nearest_double x - x\<bar> = \<bar>of_int (round_half_even (x / ?q)) - x / ?q\<bar> * ?q"
    using q by (simp add: abs_mult)
  also have "\<dots> \<le> (1 / 2) * ?q"
    using q by (intro mult_right_mono round_half_even_error) simp
  also have "(1 / 2) * ?q = 2 powi (e - 53)"
  proof -
    have "(2::rat) powi (e - 52) = 2 powi ((e - 53) + 1)" by simp
    also have "\<dots> = 2 powi (e - 53) * 2" by (rule power_int_add_1) simp
    finally show ?thesis by simp
  qed
  also have "\<dots> \<le> 2 powi (k - 53)"
    using ek by (intro power_int_increasing) simp_all
  finally show ?thesis .
qed

lemma nearest_double_bound:
  assumes "\<bar>x\<bar> \<le> 2 powi k" and "- 1022 \<le> k"
  shows "\<bar>nearest_double x\<bar> \<le> 2 powi k"
proof -
  have p: "(2::rat) powi k = of_int (2 ^ 52) * 2 powi (k - 52)"
  proof -
    have "(2::rat) powi k = 2 powi (52 + (k - 52))" by simp
    also have "\<dots> = 2 powi 52 * 2 powi (k - 52)" by (rule power_int_add) simp
    finally show ?thesis by simp
  qed
  have m: "- ((2::rat) powi k) = of_int (- (2 ^ 52)) * 2 powi (k - 52)"
    by (subst p) simp
  from assms(1) have "x \<le> of_int (2 ^ 52) * 2 powi (k - 52)"
    unfolding p [symmetric] by simp
  from nearest_double_le_grid [OF assms this] have up: "nearest_double x \<le> 2 powi k"
    by (simp only: p [symmetric])
  from assms(1) have "of_int (- (2 ^ 52)) * 2 powi (k - 52) \<le> x"
    unfolding m [symmetric] by simp
  from nearest_double_ge_grid [OF assms this] have "- ((2::rat) powi k) \<le> nearest_double x"
    by (simp only: m [symmetric])
  with up show ?thesis by (simp add: abs_le_iff)
qed

lemma nearest_double_exact:
  assumes "\<bar>x\<bar> \<le> 2 powi k" and "- 1022 \<le> k" and "x = of_int j * 2 powi (k - 52)"
  shows "nearest_double x = x"
proof -
  from assms(3) have "x \<le> of_int j * 2 powi (k - 52)" "of_int j * 2 powi (k - 52) \<le> x"
    by simp_all
  from nearest_double_le_grid [OF assms(1,2) this(1)]
       nearest_double_ge_grid [OF assms(1,2) this(2)] assms(3)
  show ?thesis by simp
qed

lemma to_double_finite:
  assumes "\<bar>x\<bar> \<le> 2 powi k" and "- 1022 \<le> k" and "k \<le> 1023"
  shows "to_double x = Fin (nearest_double x)"
proof -
  from nearest_double_bound [OF assms(1,2)] have "\<bar>nearest_double x\<bar> \<le> 2 powi k" .
  also have "(2::rat) powi k \<le> 2 powi 1023"
    using assms(3) by (intro power_int_increasing) simp_all
  also have "(2::rat) powi 1023 < 2 ^ 1024" by simp
  finally have "\<not> 2 ^ 1024 \<le> \<bar>nearest_double x\<bar>" by simp
  then show ?thesis by (simp add: to_double_def Let_def)
qed

text \<open>Instances of the rounding facts at the magnitudes of the program.\<close>

lemma to_double_upto:
  assumes "\<bar>x\<bar> \<le> 2 ^ n" and "n \<le> 1023"
  shows "to_double x = Fin (nearest_double x)"
  using to_double_finite [of x "int n"] assms by simp

lemma nearest_double_of_int:
  assumes "\<bar>of_int j :: rat\<bar> \<le> 2 ^ 52"
  shows "nearest_double (of_int j) = of_int j"
  using nearest_double_exact [of "of_int j" 52 j] assms by simp

lemma nearest_double_int_le:
  assumes "\<bar>x\<bar> \<le> 2 ^ 52" and "x \<le> of_int j"
  shows "nearest_double x \<le> of_int j"
  using nearest_double_le_grid [of x 52 j] assms by simp

lemma nearest_double_int_ge:
  assumes "\<bar>x\<bar> \<le> 2 ^ 52" and "of_int j \<le> x"
  shows "of_int j \<le> nearest_double x"
  using nearest_double_ge_grid [of x 52 j] assms by simp

lemma nearest_double_upto:
  assumes "\<bar>x\<bar> \<le> 2 ^ n"
  shows "\<bar>nearest_double x\<bar> \<le> 2 ^ n" and "\<bar>nearest_double x - x\<bar> \<le> 2 ^ n / 2 ^ 53"
proof -
  have b: "\<bar>x\<bar> \<le> 2 powi (int n)" using assms by simp
  have k: "- 1022 \<le> int n" by simp
  from nearest_double_bound [OF b k] show "\<bar>nearest_double x\<bar> \<le> 2 ^ n" by simp
  have "(2::rat) powi (int n - 53) = 2 ^ n / 2 ^ 53"
    by (simp add: power_int_diff)
  with nearest_double_error [OF b k] show "\<bar>nearest_double x - x\<bar> \<le> 2 ^ n / 2 ^ 53"
    by simp
qed

lemma nearest_double_below_one:
  assumes "\<bar>x\<bar> \<le> 1 / 2 ^ n" and "n \<le> 1022"
  shows "\<bar>nearest_double x\<bar> \<le> 1 / 2 ^ n" and "\<bar>nearest_double x - x\<bar> \<le> 1 / 2 ^ (n + 53)"
proof -
  have p: "(2::rat) powi (- int n) = 1 / 2 ^ n"
    by (simp add: power_int_minus_divide)
  have b: "\<bar>x\<bar> \<le> 2 powi (- int n)" using assms(1) by (simp only: p)
  have k: "- 1022 \<le> - int n" using assms(2) by simp
  from nearest_double_bound [OF b k] show "\<bar>nearest_double x\<bar> \<le> 1 / 2 ^ n" by (simp only: p)
  have "(2::rat) powi (- int n - 53) = 2 powi (- int (n + 53))" by simp
  also have "\<dots> = 1 / 2 ^ (n + 53)" by (simp only: power_int_minus_divide power_int_of_nat)
  finally have "(2::rat) powi (- int n - 53) = 1 / 2 ^ (n + 53)" .
  with nearest_double_error [OF b k] show "\<bar>nearest_double x - x\<bar> \<le> 1 / 2 ^ (n + 53)"
    by simp
qed

subsection \<open>The simulated participants\<close>

text \<open>The arithmetic of a tick, step by step: no step overflows.\<close>

lemma tick_arithmetic:
  assumes "0 \<le> c" "c \<le> 100" "0 \<le> t" "t \<le> 100" "0 \<le> v" "v \<le> 100" "0 \<le> r" "r < 1"
  shows "num_add (num_add (Fin c) (num_mul (num_sub (Fin t) (Fin c)) (to_double (1 / 10))))
                 (num_mul (num_sub (Fin r) (Fin (1 / 2))) (Fin v))
           = Fin (tick_double c t v r)"
proof -
  let ?d1 = "nearest_double (t - c)"
  let ?D = "nearest_double (1 / 10)"
  let ?p1 = "nearest_double (?d1 * ?D)"
  let ?s1 = "nearest_double (c + ?p1)"
  let ?d2 = "nearest_double (r - 1 / 2)"
  let ?p2 = "nearest_double (?d2 * v)"
  have a1: "\<bar>t - c\<bar> \<le> 2 ^ 7" using assms by simp
  then have d1: "\<bar>?d1\<bar> \<le> 2 ^ 7" by (rule nearest_double_upto)
  have a2: "\<bar>1 / 10 :: rat\<bar> \<le> 2 ^ 0" by simp
  then have D: "\<bar>?D\<bar> \<le> 2 ^ 0" by (rule nearest_double_upto)
  have "\<bar>?d1 * ?D\<bar> = \<bar>?d1\<bar> * \<bar>?D\<bar>" by (rule abs_mult)
  also have "\<dots> \<le> 2 ^ 7 * 2 ^ 0" using d1 D by (intro mult_mono) simp_all
  finally have a3: "\<bar>?d1 * ?D\<bar> \<le> 2 ^ 7" by simp
  then have p1: "\<bar>?p1\<bar> \<le> 2 ^ 7" by (rule nearest_double_upto)
  have a4: "\<bar>c + ?p1\<bar> \<le> 2 ^ 8" using assms(1,2) p1 by simp
  then have s1: "\<bar>?s1\<bar> \<le> 2 ^ 8" by (rule nearest_double_upto)
  have a5: "\<bar>r - 1 / 2\<bar> \<le> 2 ^ 0" using assms(7,8) by simp
  then have d2: "\<bar>?d2\<bar> \<le> 2 ^ 0" by (rule nearest_double_upto)
  have "\<bar>?d2 * v\<bar> = \<bar>?d2\<bar> * \<bar>v\<bar>" by (rule abs_mult)
  also have "\<dots> \<le> 2 ^ 0 * 2 ^ 7" using d2 assms(5,6) by (intro mult_mono) simp_all
  finally have a6: "\<bar>?d2 * v\<bar> \<le> 2 ^ 7" by simp
  then have p2: "\<bar>?p2\<bar> \<le> 2 ^ 7" by (rule nearest_double_upto)
  have a7: "\<bar>?s1 + ?p2\<bar> \<le> 2 ^ 9" using s1 p2 by simp
  have e1: "num_sub (Fin t) (Fin c) = Fin ?d1"
    using to_double_upto [OF a1] by (simp add: num_sub_def)
  have e2: "to_double (1 / 10) = Fin ?D"
    using a2 by (rule to_double_upto) simp
  have e3: "num_mul (Fin ?d1) (Fin ?D) = Fin ?p1"
    using to_double_upto [OF a3] by simp
  have e4: "num_add (Fin c) (Fin ?p1) = Fin ?s1"
    using to_double_upto [OF a4] by simp
  have e5: "num_sub (Fin r) (Fin (1 / 2)) = Fin ?d2"
    using to_double_upto [OF a5] by (simp add: num_sub_def)
  have e6: "num_mul (Fin ?d2) (Fin v) = Fin ?p2"
    using to_double_upto [OF a6] by simp
  have e7: "num_add (Fin ?s1) (Fin ?p2) = Fin (nearest_double (?s1 + ?p2))"
    using to_double_upto [OF a7] by simp
  show ?thesis
    by (simp only: e1 e2 e3 e4 e5 e6 e7 tick_double_def)
qed

text \<open>
  The rounding of the operations of a tick moves the result by \<open>2 powi (- 43)\<close> at most.
\<close>

lemma tick_double_error:
  assumes "0 \<le> c" "c \<le> 100" "0 \<le> t" "t \<le> 100" "0 \<le> v" "v \<le> 100" "0 \<le> r" "r < 1"
  shows "\<bar>tick_double c t v r - (c + (t - c) * (1 / 10) + (r - 1 / 2) * v)\<bar> \<le> 1 / 2 ^ 43"
proof -
  define A where "A = t - c"
  define d1 where "d1 = nearest_double A"
  define D where "D = nearest_double (1 / 10)"
  define B where "B = d1 * D"
  define p1 where "p1 = nearest_double B"
  define C where "C = c + p1"
  define s1 where "s1 = nearest_double C"
  define E where "E = r - 1 / 2"
  define d2 where "d2 = nearest_double E"
  define G where "G = d2 * v"
  define p2 where "p2 = nearest_double G"
  define H where "H = s1 + p2"
  define s2 where "s2 = nearest_double H"
  define u where "u = (d1 - A) * D"
  define w where "w = A * (D - 1 / 10)"
  define z where "z = (d2 - E) * v"
  have td: "tick_double c t v r = s2"
    by (simp add: tick_double_def s2_def H_def s1_def C_def p1_def B_def d1_def A_def D_def
          p2_def G_def d2_def E_def)
  have A: "\<bar>A\<bar> \<le> 2 ^ 7" using assms by (simp add: A_def)
  have A100: "\<bar>A\<bar> \<le> 100" using assms by (simp add: A_def)
  from nearest_double_upto [OF A]
  have d1: "\<bar>d1\<bar> \<le> 2 ^ 7" and d1e: "\<bar>d1 - A\<bar> \<le> 1 / 2 ^ 46" by (simp_all add: d1_def)
  have "\<bar>1 / 10 :: rat\<bar> \<le> 1 / 2 ^ 3" by simp
  from nearest_double_below_one [OF this]
  have D: "\<bar>D\<bar> \<le> 1 / 8" and De: "\<bar>D - 1 / 10\<bar> \<le> 1 / 2 ^ 56" by (simp_all add: D_def)
  have "\<bar>B\<bar> = \<bar>d1\<bar> * \<bar>D\<bar>" unfolding B_def by (rule abs_mult)
  also have "\<dots> \<le> 2 ^ 7 * (1 / 8)" using d1 D by (intro mult_mono) simp_all
  finally have B: "\<bar>B\<bar> \<le> 2 ^ 4" by simp
  from nearest_double_upto [OF B]
  have p1: "\<bar>p1\<bar> \<le> 2 ^ 4" and p1e: "\<bar>p1 - B\<bar> \<le> 1 / 2 ^ 49" by (simp_all add: p1_def)
  have "\<bar>u\<bar> = \<bar>d1 - A\<bar> * \<bar>D\<bar>" unfolding u_def by (rule abs_mult)
  also have "\<dots> \<le> (1 / 2 ^ 46) * (1 / 8)" using d1e D by (intro mult_mono) simp_all
  finally have u: "\<bar>u\<bar> \<le> 1 / 2 ^ 49" by simp
  have "\<bar>w\<bar> = \<bar>A\<bar> * \<bar>D - 1 / 10\<bar>" unfolding w_def by (rule abs_mult)
  also have "\<dots> \<le> 100 * (1 / 2 ^ 56)" using A100 De by (intro mult_mono) simp_all
  also have "\<dots> \<le> 1 / 2 ^ 49" by simp
  finally have w: "\<bar>w\<bar> \<le> 1 / 2 ^ 49" .
  have Buw: "B - A * (1 / 10) = u + w"
    by (simp add: B_def u_def w_def algebra_simps)
  have C: "\<bar>C\<bar> \<le> 2 ^ 7" using assms(1,2) p1 by (simp add: C_def)
  from nearest_double_upto [OF C]
  have s1: "\<bar>s1\<bar> \<le> 2 ^ 7" and s1e: "\<bar>s1 - C\<bar> \<le> 1 / 2 ^ 46" by (simp_all add: s1_def)
  have "\<bar>E\<bar> \<le> 1 / 2" using assms(7,8) unfolding E_def by linarith
  then have "\<bar>E\<bar> \<le> 1 / 2 ^ 1" by simp
  from nearest_double_below_one [OF this]
  have d2: "\<bar>d2\<bar> \<le> 1 / 2" and d2e: "\<bar>d2 - E\<bar> \<le> 1 / 2 ^ 54" by (simp_all add: d2_def)
  have "\<bar>G\<bar> = \<bar>d2\<bar> * \<bar>v\<bar>" unfolding G_def by (rule abs_mult)
  also have "\<dots> \<le> (1 / 2) * 100" using d2 assms(5,6) by (intro mult_mono) simp_all
  finally have G: "\<bar>G\<bar> \<le> 2 ^ 6" by simp
  from nearest_double_upto [OF G]
  have p2: "\<bar>p2\<bar> \<le> 2 ^ 6" and p2e: "\<bar>p2 - G\<bar> \<le> 1 / 2 ^ 47" by (simp_all add: p2_def)
  have "\<bar>z\<bar> = \<bar>d2 - E\<bar> * \<bar>v\<bar>" unfolding z_def by (rule abs_mult)
  also have "\<dots> \<le> (1 / 2 ^ 54) * 100" using d2e assms(5,6) by (intro mult_mono) simp_all
  also have "\<dots> \<le> 1 / 2 ^ 47" by simp
  finally have z: "\<bar>z\<bar> \<le> 1 / 2 ^ 47" .
  have Gz: "G - E * v = z" by (simp add: G_def z_def algebra_simps)
  have H: "\<bar>H\<bar> \<le> 2 ^ 8" using s1 p2 by (simp add: H_def)
  from nearest_double_upto [OF H]
  have s2e: "\<bar>s2 - H\<bar> \<le> 1 / 2 ^ 45" by (simp add: s2_def)
  have split: "s2 - (c + A * (1 / 10) + E * v)
                 = (s2 - H) + (s1 - C) + (p1 - B) + (u + w) + (p2 - G) + z"
    unfolding Buw [symmetric] Gz [symmetric] by (simp add: H_def C_def)
  have "\<bar>s2 - (c + A * (1 / 10) + E * v)\<bar>
          \<le> \<bar>s2 - H\<bar> + \<bar>s1 - C\<bar> + \<bar>p1 - B\<bar> + (\<bar>u\<bar> + \<bar>w\<bar>) + \<bar>p2 - G\<bar> + \<bar>z\<bar>"
    unfolding split by (intro order_trans [OF abs_triangle_ineq] add_mono order_refl)
  also have "\<dots> \<le> 1 / 2 ^ 45 + 1 / 2 ^ 46 + 1 / 2 ^ 49 + (1 / 2 ^ 49 + 1 / 2 ^ 49)
                    + 1 / 2 ^ 47 + 1 / 2 ^ 47"
    by (intro add_mono s2e s1e p1e u w p2e z)
  also have "\<dots> \<le> 1 / 2 ^ 43" by simp
  finally show ?thesis by (simp only: td A_def E_def)
qed

lemma clamp_close:
  fixes a b :: rat
  shows "\<bar>max 0 (min 100 a) - max 0 (min 100 b)\<bar> \<le> \<bar>a - b\<bar>"
  by (simp add: max_def min_def abs_if)

lemma bot_tick_stores:
  assumes "Map_get rooms GLOBAL_ROOM_ID = Some room"
    and "Map_get (users room) (bot_id b) = Some usr"
    and "boredom usr = Fin c" and "0 \<le> c" and "c \<le> 100"
    and "bot_boredom b = Fin t" and "0 \<le> t" and "t \<le> 100"
    and "volatility b = Fin v" and "0 \<le> v" and "v \<le> 100"
    and "0 \<le> r" and "r < 1"
  shows "bot_tick b (Fin r) rooms =
           Map_set rooms GLOBAL_ROOM_ID
             (room\<lparr>users := Map_set (users room) (bot_id b)
                (usr\<lparr>boredom := Fin (max 0 (min 100 (tick_double c t v r)))\<rparr>)\<rparr>)"
proof -
  from tick_arithmetic [OF assms(4,5,7,8,10-13)]
  have "Math_max (Fin 0) (Math_min (Fin 100)
          (num_add (num_add (Fin c) (num_mul (num_sub (Fin t) (Fin c)) (to_double (1 / 10))))
                   (num_mul (num_sub (Fin r) (Fin (1 / 2))) (Fin v))))
        = Fin (max 0 (min 100 (tick_double c t v r)))"
    by simp
  then show ?thesis
    using assms(1,2,3,6,9) by (simp add: bot_tick_def Let_def)
qed

lemma initial_tick:
  assumes "0 \<le> r" and "r < 1"
  shows "bot_tick (hd bots) (Fin r) (initial_rooms 0)
           = [(GLOBAL_ROOM_ID, ticked_room (max 0 (min 100 (tick_double 65 65 15 r))))]"
proof -
  have g: "Map_get (initial_rooms 0) GLOBAL_ROOM_ID = Some (globalRoom 0)"
    by (simp add: Map_get_def initial_rooms_def)
  have u: "Map_get (users (globalRoom 0)) (bot_id (hd bots))
        = Some \<lparr>boredom = Fin 65, ws = None, isBot = True, name = JStr ''Restless Rita''\<rparr>"
    by (simp add: Map_get_def globalRoom_def bots_def)
  have b: "bot_boredom (hd bots) = Fin 65" "volatility (hd bots) = Fin 15"
    by (simp_all add: bots_def)
  have "bot_tick (hd bots) (Fin r) (initial_rooms 0) =
           Map_set (initial_rooms 0) GLOBAL_ROOM_ID
             ((globalRoom 0)\<lparr>users := Map_set (users (globalRoom 0)) (bot_id (hd bots))
                (\<lparr>boredom = Fin 65, ws = None, isBot = True, name = JStr ''Restless Rita''\<rparr>
                   \<lparr>boredom := Fin (max 0 (min 100 (tick_double 65 65 15 r)))\<rparr>)\<rparr>)"
    using g u _ _ _ b(1) _ _ b(2) _ _ assms by (rule bot_tick_stores) simp_all
  then show ?thesis
    by (simp add: initial_rooms_def globalRoom_def bots_def ticked_room_def)
qed

text \<open>
  C6 (amended). One tick of the profile \<open>b\<close> with the random draw \<open>r\<close>: when the global room
  or the entry of the profile is missing, the registry does not change; otherwise, for a
  current value \<open>c\<close>, a target \<open>t\<close> and a volatility \<open>v\<close> between 0 and 100 and a draw in
  \<open>[0, 1)\<close>, the entry holds afterwards the clamp to \<open>[0, 100]\<close> of
  \<open>c + (t - c) * 0.1 + (r - 0.5) * v\<close> as double arithmetic computes it (\<open>tick_double\<close>):
  a value between 0 and 100 that is not rounded to an integer and that differs from the
  clamp of the exact value of the expression by \<open>2 powi (- 43)\<close> at most.
\<close>

theorem bot_tick_value:
  shows "(Map_get rooms GLOBAL_ROOM_ID = None \<longrightarrow> bot_tick b (Fin r) rooms = rooms)
    \<and> (\<forall>room. Map_get rooms GLOBAL_ROOM_ID = Some room \<longrightarrow>
          (Map_get (users room) (bot_id b) = None \<longrightarrow> bot_tick b (Fin r) rooms = rooms)
        \<and> (\<forall>usr c t v. Map_get (users room) (bot_id b) = Some usr
                \<and> boredom usr = Fin c \<and> 0 \<le> c \<and> c \<le> 100
                \<and> bot_boredom b = Fin t \<and> 0 \<le> t \<and> t \<le> 100
                \<and> volatility b = Fin v \<and> 0 \<le> v \<and> v \<le> 100
                \<and> 0 \<le> r \<and> r < 1 \<longrightarrow>
              (\<exists>room' usr'. Map_get (bot_tick b (Fin r) rooms) GLOBAL_ROOM_ID = Some room'
                 \<and> Map_get (users room') (bot_id b) = Some usr'
                 \<and> boredom usr' = Fin (max 0 (min 100 (tick_double c t v r)))
                 \<and> \<bar>max 0 (min 100 (tick_double c t v r))
                      - max 0 (min 100 (c + (t - c) * (1 / 10) + (r - 1 / 2) * v))\<bar> \<le> 1 / 2 ^ 43
                 \<and> 0 \<le> max 0 (min 100 (tick_double c t v r))
                 \<and> max 0 (min 100 (tick_double c t v r)) \<le> 100)))"
proof (intro conjI allI impI)
  assume "Map_get rooms GLOBAL_ROOM_ID = None"
  then show "bot_tick b (Fin r) rooms = rooms" by (simp add: bot_tick_def)
next
  fix room
  assume "Map_get rooms GLOBAL_ROOM_ID = Some room" "Map_get (users room) (bot_id b) = None"
  then show "bot_tick b (Fin r) rooms = rooms" by (simp add: bot_tick_def)
next
  fix room usr c t v
  assume g: "Map_get rooms GLOBAL_ROOM_ID = Some room"
    and h: "Map_get (users room) (bot_id b) = Some usr
                \<and> boredom usr = Fin c \<and> 0 \<le> c \<and> c \<le> 100
                \<and> bot_boredom b = Fin t \<and> 0 \<le> t \<and> t \<le> 100
                \<and> volatility b = Fin v \<and> 0 \<le> v \<and> v \<le> 100
                \<and> 0 \<le> r \<and> r < 1"
  let ?x = "max 0 (min 100 (tick_double c t v r))"
  let ?y = "max 0 (min 100 (c + (t - c) * (1 / 10) + (r - 1 / 2) * v))"
  let ?usr' = "usr\<lparr>boredom := Fin ?x\<rparr>"
  let ?room' = "room\<lparr>users := Map_set (users room) (bot_id b) ?usr'\<rparr>"
  from h have u: "Map_get (users room) (bot_id b) = Some usr" and c: "boredom usr = Fin c"
    and c0: "0 \<le> c" and c1: "c \<le> 100" and t: "bot_boredom b = Fin t" and t0: "0 \<le> t"
    and t1: "t \<le> 100" and v: "volatility b = Fin v" and v0: "0 \<le> v" and v1: "v \<le> 100"
    and r0: "0 \<le> r" and r1: "r < 1"
    by simp_all
  have "bot_tick b (Fin r) rooms = Map_set rooms GLOBAL_ROOM_ID ?room'"
    using g u c c0 c1 t t0 t1 v v0 v1 r0 r1 by (rule bot_tick_stores)
  then have 1: "Map_get (bot_tick b (Fin r) rooms) GLOBAL_ROOM_ID = Some ?room'
      \<and> Map_get (users ?room') (bot_id b) = Some ?usr' \<and> boredom ?usr' = Fin ?x"
    by (simp add: Map_get_set)
  have "\<bar>?x - ?y\<bar> \<le> \<bar>tick_double c t v r - (c + (t - c) * (1 / 10) + (r - 1 / 2) * v)\<bar>"
    by (rule clamp_close)
  also have "\<dots> \<le> 1 / 2 ^ 43"
    using c0 c1 t0 t1 v0 v1 r0 r1 by (rule tick_double_error)
  finally have 2: "\<bar>?x - ?y\<bar> \<le> 1 / 2 ^ 43" .
  have 3: "0 \<le> ?x \<and> ?x \<le> 100" by simp
  from 1 2 3
  show "\<exists>room' usr'. Map_get (bot_tick b (Fin r) rooms) GLOBAL_ROOM_ID = Some room'
                 \<and> Map_get (users room') (bot_id b) = Some usr'
                 \<and> boredom usr' = Fin ?x \<and> \<bar>?x - ?y\<bar> \<le> 1 / 2 ^ 43
                 \<and> 0 \<le> ?x \<and> ?x \<le> 100"
    by blast
qed

theorem bot_tick_value_witness:
  "Map_get ([] :: registry) GLOBAL_ROOM_ID = None
   \<and> bot_tick (hd bots) (Fin (3 / 4)) [] = []
   \<and> Map_get [(GLOBAL_ROOM_ID, sample_room\<lparr>users := []\<rparr>)] GLOBAL_ROOM_ID
        = Some (sample_room\<lparr>users := []\<rparr>)
   \<and> Map_get (users (sample_room\<lparr>users := []\<rparr>)) (bot_id (hd bots)) = None
   \<and> bot_tick (hd bots) (Fin (3 / 4)) [(GLOBAL_ROOM_ID, sample_room\<lparr>users := []\<rparr>)]
        = [(GLOBAL_ROOM_ID, sample_room\<lparr>users := []\<rparr>)]
   \<and> Map_get (initial_rooms 0) GLOBAL_ROOM_ID = Some (globalRoom 0)
   \<and> Map_get (users (globalRoom 0)) (bot_id (hd bots))
        = Some \<lparr>boredom = Fin 65, ws = None, isBot = True, name = JStr ''Restless Rita''\<rparr>
   \<and> bot_boredom (hd bots) = Fin 65 \<and> volatility (hd bots) = Fin 15
   \<and> (0 :: rat) \<le> 3 / 4 \<and> (3 / 4 :: rat) < 1
   \<and> (\<exists>room' usr'. Map_get (bot_tick (hd bots) (Fin (3 / 4)) (initial_rooms 0)) GLOBAL_ROOM_ID
                        = Some room'
          \<and> Map_get (users room') (bot_id (hd bots)) = Some usr'
          \<and> boredom usr' = Fin (275 / 4))"
proof -
  let ?b = "hd bots"
  let ?e = "sample_room\<lparr>users := []\<rparr>"
  have a1: "Map_get ([] :: registry) GLOBAL_ROOM_ID = None"
    by (simp add: Map_get_def)
  have a2: "Map_get [(GLOBAL_ROOM_ID, ?e)] GLOBAL_ROOM_ID = Some ?e"
    by (simp add: Map_get_def)
  have a3: "Map_get (users ?e) (bot_id ?b) = None"
    by (simp add: Map_get_def)
  have a4: "Map_get (initial_rooms 0) GLOBAL_ROOM_ID = Some (globalRoom 0)"
    by (simp add: Map_get_def initial_rooms_def)
  have a5: "Map_get (users (globalRoom 0)) (bot_id ?b)
        = Some \<lparr>boredom = Fin 65, ws = None, isBot = True, name = JStr ''Restless Rita''\<rparr>"
    by (simp add: Map_get_def globalRoom_def bots_def)
  have a6: "bot_boredom ?b = Fin 65" "volatility ?b = Fin 15"
    by (simp_all add: bots_def)
  have a7: "(0 :: rat) \<le> 3 / 4" "(3 / 4 :: rat) < 1" by simp_all
  have v: "tick_double 65 65 15 (3 / 4) = 275 / 4" by code_simp
  have c1: "bot_tick ?b (Fin (3 / 4)) [] = []"
    using bot_tick_value [of "[]" ?b "3 / 4"] a1 by simp
  have c2: "bot_tick ?b (Fin (3 / 4)) [(GLOBAL_ROOM_ID, ?e)] = [(GLOBAL_ROOM_ID, ?e)]"
    using bot_tick_value [of "[(GLOBAL_ROOM_ID, ?e)]" ?b "3 / 4"] a2 a3 by simp
  have c3: "\<exists>room' usr'. Map_get (bot_tick ?b (Fin (3 / 4)) (initial_rooms 0)) GLOBAL_ROOM_ID
                        = Some room'
          \<and> Map_get (users room') (bot_id ?b) = Some usr'
          \<and> boredom usr' = Fin (275 / 4)"
  proof -
    note t = bot_tick_value [of "initial_rooms 0" ?b "3 / 4", THEN conjunct2, rule_format,
        OF a4, THEN conjunct2, rule_format, of _ 65 65 15]
    from t a5 a6 show ?thesis
      unfolding v by auto
  qed
  from a1 c1 a2 a3 c2 a4 a5 a6 a7 c3 show ?thesis by (intro conjI)
qed

text \<open>
  C6 as stated fails: the stored value is not always the exact value of the expression. At
  the start, with the draw \<open>0.5333333333333332\<close>, the first profile stores 65.5, and the
  exact value is \<open>65.5 - 2 powi (- 49)\<close>.
\<close>

theorem bot_tick_value_rounded:
  "nearest_double draw_a = draw_a \<and> 0 \<le> draw_a \<and> draw_a < 1
   \<and> bot_tick (hd bots) (Fin draw_a) (initial_rooms 0)
        = [(GLOBAL_ROOM_ID, ticked_room (131 / 2))]
   \<and> max 0 (min 100 (65 + (65 - 65) * (1 / 10) + (draw_a - 1 / 2) * 15))
        = 131 / 2 - 1 / 2 ^ 49"
proof -
  have d: "nearest_double draw_a = draw_a" by code_simp
  have r: "0 \<le> draw_a" "draw_a < 1" by (simp_all add: draw_a_def)
  have v: "tick_double 65 65 15 draw_a = 131 / 2" by code_simp
  have t: "bot_tick (hd bots) (Fin draw_a) (initial_rooms 0)
        = [(GLOBAL_ROOM_ID, ticked_room (131 / 2))]"
    unfolding initial_tick [OF r] v by simp
  have e: "max 0 (min 100 (65 + (65 - 65) * (1 / 10) + (draw_a - 1 / 2) * 15))
        = 131 / 2 - 1 / 2 ^ 49"
    by (simp add: draw_a_def)
  from d r t e show ?thesis by (intro conjI)
qed

subsection \<open>Statistics of a room\<close>

text \<open>
  The sum of \<open>getRoomStats\<close>, started from \<open>a\<close>: with values between 0 and 100 and no
  more than \<open>2 ^ 32\<close> of them, no sum overflows, and sums of integers are exact.
\<close>

lemma foldl_num_add_doubles:
  assumes "\<forall>q \<in> set qs. 0 \<le> q \<and> q \<le> 100"
    and "0 \<le> a" and "a \<le> 128 * of_nat i" and "i + length qs \<le> 2 ^ 32"
  shows "foldl num_add (Fin a) (map Fin qs) = Fin (foldl (\<lambda>a q. nearest_double (a + q)) a qs)
       \<and> 0 \<le> foldl (\<lambda>a q. nearest_double (a + q)) a qs
       \<and> foldl (\<lambda>a q. nearest_double (a + q)) a qs \<le> 128 * of_nat (i + length qs)"
  using assms
proof (induction qs arbitrary: a i)
  case Nil
  then show ?case by simp
next
  case (Cons q qs)
  from Cons.prems(1) have q: "0 \<le> q" "q \<le> 100" by simp_all
  from Cons.prems(4) have i: "Suc i \<le> 2 ^ 32" by simp
  then have "(of_nat (Suc i) :: rat) \<le> of_nat (2 ^ 32)" by (simp only: of_nat_le_iff)
  then have i': "(of_nat (Suc i) :: rat) \<le> 2 ^ 32" by simp
  have lo: "0 \<le> a + q" using Cons.prems(2) q by simp
  have hi: "a + q \<le> 128 * of_nat (Suc i)" using Cons.prems(3) q by simp
  also have "\<dots> \<le> 128 * 2 ^ 32" using i' by simp
  finally have b: "\<bar>a + q\<bar> \<le> 2 ^ 52" using lo by simp
  have t: "to_double (a + q) = Fin (nearest_double (a + q))"
    using b by (intro to_double_upto [of _ 52]) simp_all
  have lo': "0 \<le> nearest_double (a + q)"
    using nearest_double_int_ge [OF b, of 0] lo by simp
  have hi': "nearest_double (a + q) \<le> 128 * of_nat (Suc i)"
    using nearest_double_int_le [OF b, of "128 * int (Suc i)"] hi by simp
  from Cons.prems(1) have qs: "\<forall>q \<in> set qs. 0 \<le> q \<and> q \<le> 100" by simp
  from Cons.prems(4) have n: "Suc i + length qs \<le> 2 ^ 32" by simp
  from Cons.IH [OF qs lo' hi' n] t show ?case by simp
qed

lemma double_sum_integers:
  assumes "\<forall>q \<in> set qs. q \<in> \<int> \<and> 0 \<le> q \<and> q \<le> 100"
    and "a \<in> \<int>" and "0 \<le> a" and "a \<le> 128 * of_nat i" and "i + length qs \<le> 2 ^ 32"
  shows "foldl (\<lambda>a q. nearest_double (a + q)) a qs = a + sum_list qs"
  using assms
proof (induction qs arbitrary: a i)
  case Nil
  then show ?case by simp
next
  case (Cons q qs)
  from Cons.prems(1) have q: "q \<in> \<int>" "0 \<le> q" "q \<le> 100" by simp_all
  from Cons.prems(5) have i: "Suc i \<le> 2 ^ 32" by simp
  then have "(of_nat (Suc i) :: rat) \<le> of_nat (2 ^ 32)" by (simp only: of_nat_le_iff)
  then have i': "(of_nat (Suc i) :: rat) \<le> 2 ^ 32" by simp
  have lo: "0 \<le> a + q" using Cons.prems(3) q by simp
  have hi: "a + q \<le> 128 * of_nat (Suc i)" using Cons.prems(4) q by simp
  also have "\<dots> \<le> 128 * 2 ^ 32" using i' by simp
  finally have b: "\<bar>a + q\<bar> \<le> 2 ^ 52" using lo by simp
  from Cons.prems(2) q(1) have "a + q \<in> \<int>" by simp
  then obtain j where j: "a + q = of_int j" by (rule Ints_cases)
  from b have e: "nearest_double (a + q) = a + q"
    unfolding j by (rule nearest_double_of_int)
  from Cons.prems(1) have qs: "\<forall>q \<in> set qs. q \<in> \<int> \<and> 0 \<le> q \<and> q \<le> 100" by simp
  from Cons.prems(5) have n: "Suc i + length qs \<le> 2 ^ 32" by simp
  from Cons.IH [OF qs \<open>a + q \<in> \<int>\<close> lo hi n] e show ?case by (simp add: add.assoc)
qed

lemma sum_list_bounds:
  assumes "\<forall>q \<in> set qs. 0 \<le> q \<and> q \<le> (100::rat)"
  shows "0 \<le> sum_list qs" and "sum_list qs \<le> 100 * of_nat (length qs)"
  using assms by (induction qs) (auto simp: algebra_simps)

lemma sum_list_Ints: "\<forall>q \<in> set qs. q \<in> \<int> \<Longrightarrow> sum_list qs \<in> (\<int> :: rat set)"
  by (induction qs) auto

text \<open>
  The quotient of an integer total by a count: rounding it to a double does not move it
  across a half, so \<open>Math.round\<close> gives the nearest integer of the exact quotient.
\<close>

lemma round_nearest_double_quotient:
  fixes s :: int and n :: nat
  assumes "0 \<le> s" and "0 < n" and "s \<le> 100 * int n" and "n \<le> 2 ^ 32"
  shows "round (nearest_double (of_int s / of_nat n)) = round (of_int s / of_nat n :: rat)"
proof -
  define m :: rat where "m = of_nat n"
  define x :: rat where "x = of_int s / m"
  define k :: int where "k = round x"
  have m: "0 < m" using assms(2) by (simp add: m_def)
  have xm: "x * m = of_int s" using m by (simp add: x_def)
  have x0: "0 \<le> x" using assms(1) m by (simp add: x_def)
  have "(of_int s :: rat) \<le> of_int (100 * int n)" using assms(3) by (simp only: of_int_le_iff)
  then have "of_int s \<le> 100 * m" by (simp add: m_def)
  then have x100: "x \<le> 100" using m by (simp add: x_def pos_divide_le_eq)
  have b: "\<bar>x\<bar> \<le> 2 powi 7" using x0 x100 by simp
  have k7: "- 1022 \<le> (7::int)" by simp
  have k: "of_int k \<le> x + 1 / 2" "x + 1 / 2 < of_int k + 1"
    unfolding k_def round_def by (simp_all add: floor_correct [of "x + 1 / 2", simplified])
  have g: "(2::rat) powi (7 - 52) = 1 / 2 ^ 45" by (simp add: power_int_minus_divide)
  have e1: "of_int ((2 * k - 1) * 2 ^ 44) * 2 powi (7 - 52) = (of_int k - 1 / 2 :: rat)"
    unfolding g by simp
  have "of_int k - 1 / 2 \<le> x" using k(1) by linarith
  with e1 have "of_int ((2 * k - 1) * 2 ^ 44) * 2 powi (7 - 52) \<le> x"
    by (rule ord_eq_le_trans)
  from nearest_double_ge_grid [OF b k7 this]
  have lo: "of_int k - 1 / 2 \<le> nearest_double x"
    by (rule ord_eq_le_trans [OF e1 [symmetric]])
  from k(2) have "x < of_int k + 1 / 2" by linarith
  with m have "x * m < (of_int k + 1 / 2) * m" by (rule mult_strict_right_mono [rotated])
  then have "of_int s < (of_int k + 1 / 2) * m" by (simp only: xm)
  then have "2 * of_int s < (2 * of_int k + 1) * m" by (simp add: algebra_simps)
  then have "(of_int (2 * s) :: rat) < of_int ((2 * k + 1) * int n)" by (simp add: m_def)
  then have "2 * s < (2 * k + 1) * int n" by (simp only: of_int_less_iff)
  then have "2 * s + 1 \<le> (2 * k + 1) * int n" by simp
  then have "(of_int (2 * s + 1) :: rat) \<le> of_int ((2 * k + 1) * int n)"
    by (simp only: of_int_le_iff)
  then have s1: "2 * of_int s + 1 \<le> (2 * of_int k + 1) * m" by (simp add: m_def)
  have "(of_nat n :: rat) \<le> of_nat (2 ^ 32)" using assms(4) by (simp only: of_nat_le_iff)
  then have m32: "m \<le> 2 ^ 32" by (simp add: m_def)
  have "x * m \<le> (of_int k + 1 / 2 - 1 / 2 ^ 45) * m"
  proof -
    have "m / 2 ^ 45 \<le> 1 / 2" using m32 by simp
    moreover have "(of_int k + 1 / 2 - 1 / 2 ^ 45) * m = (2 * of_int k + 1) * m / 2 - m / 2 ^ 45"
      by (simp add: algebra_simps)
    moreover have "of_int s \<le> (2 * of_int k + 1) * m / 2 - 1 / 2" using s1 by simp
    ultimately show ?thesis unfolding xm by linarith
  qed
  with m have up2: "x \<le> of_int k + 1 / 2 - 1 / 2 ^ 45" by simp
  have e2: "of_int ((2 * k + 1) * 2 ^ 44 - 1) * 2 powi (7 - 52)
              = (of_int k + 1 / 2 - 1 / 2 ^ 45 :: rat)"
    unfolding g by (simp add: field_simps)
  from up2 e2 [symmetric] have "x \<le> of_int ((2 * k + 1) * 2 ^ 44 - 1) * 2 powi (7 - 52)"
    by (rule ord_le_eq_trans)
  from nearest_double_le_grid [OF b k7 this] e2
  have "nearest_double x \<le> of_int k + 1 / 2 - 1 / 2 ^ 45"
    by (rule ord_le_eq_trans)
  then have hi: "nearest_double x < of_int k + 1 / 2" by simp
  have "\<lfloor>nearest_double x + 1 / 2\<rfloor> = k"
    using lo hi by (intro floor_unique) linarith+
  then have "round (nearest_double x) = k" by (simp only: round_def)
  then show ?thesis by (simp only: k_def x_def m_def)
qed

lemma getRoomStats_doubles:
  assumes "Map_get rooms rid = Some room"
    and "users room \<noteq> []"
    and "map (\<lambda>e. boredom (snd e)) (users room) = map Fin qs"
    and "\<forall>q \<in> set qs. 0 \<le> q \<and> q \<le> 100"
    and "length qs \<le> 2 ^ 32"
  shows "getRoomStats rooms rid =
     Some \<lparr>average = Fin (of_int (round (double_mean qs))), count = length (users room),
           individuals = map (\<lambda>(i, u).
               \<lparr>ind_id = i, ind_boredom = Math_round (boredom u),
                ind_isBot = (isBot u \<or> False),
                ind_name = (if truthy (name u) then name u else JNull)\<rparr>) (users room),
           roomName = room_name room, roomId = rid\<rparr>"
proof -
  let ?vals = "map (\<lambda>(_, u). boredom u) (users room)"
  have vals: "?vals = map Fin qs"
    using assms(3) by (simp add: case_prod_unfold)
  have len: "length qs = length (users room)"
    using arg_cong [OF assms(3), of length] by simp
  with assms(2) have pos: "0 < length qs" by simp
  from foldl_num_add_doubles [OF assms(4), of 0 0] assms(5)
  have s: "foldl num_add (Fin 0) (map Fin qs) = Fin (double_sum qs)"
    and s0: "0 \<le> double_sum qs" and s1: "double_sum qs \<le> 128 * of_nat (length qs)"
    by (simp_all add: double_sum_def)
  have n: "(0::rat) < of_nat (length qs)" using pos by simp
  have "double_sum qs / of_nat (length qs) \<le> 128"
    using s1 n by (simp add: pos_divide_le_eq)
  moreover have "0 \<le> double_sum qs / of_nat (length qs)" using s0 by simp
  ultimately have "\<bar>double_sum qs / of_nat (length qs)\<bar> \<le> 2 ^ 7" by simp
  from to_double_upto [OF this]
  have "num_div (Fin (double_sum qs)) (Fin (of_nat (length qs))) = Fin (double_mean qs)"
    using pos by (simp add: double_mean_def)
  then have "Math_round (num_div (foldl num_add (Fin 0) ?vals) (Fin (of_nat (length ?vals))))
               = Fin (of_int (round (double_mean qs)))"
    by (simp add: vals s round_def)
  then show ?thesis
    using assms(1) pos len by (simp add: getRoomStats_def Let_def vals)
qed

text \<open>
  C1 (amended). For a room of the registry whose participant table is not empty and holds
  finite values \<open>qs\<close> between 0 and 100 (every value the server stores is one; the length
  of an array is below \<open>2 ^ 32\<close>), \<open>getRoomStats\<close> returns statistics whose \<open>count\<close> is the
  number of entries of the table, bots included, whose \<open>individuals\<close> list the participants
  in the order of the table, each with its stored value rounded, and whose \<open>average\<close> is
  the nearest integer of the mean as double arithmetic computes it (\<open>double_mean\<close>). When
  every stored value is an integer, as in every room that holds connections only, that is
  the nearest integer of the exact mean. Rounding is \<open>Math.round\<close>, to the nearest integer
  with ties upwards (\<open>Math_round_nearest\<close>).
\<close>

theorem getRoomStats_nonempty:
  assumes "Map_get rooms rid = Some room"
    and "users room \<noteq> []"
    and "map (\<lambda>e. boredom (snd e)) (users room) = map Fin qs"
    and "\<forall>q \<in> set qs. 0 \<le> q \<and> q \<le> 100"
    and "length qs \<le> 2 ^ 32"
  shows "\<exists>st. getRoomStats rooms rid = Some st
           \<and> count st = length (users room)
           \<and> average st = Fin (of_int (round (double_mean qs)))
           \<and> ((\<forall>q \<in> set qs. q \<in> \<int>) \<longrightarrow>
                average st = Fin (of_int (round (sum_list qs / of_nat (length qs)))))
           \<and> map ind_id (individuals st) = map fst (users room)
           \<and> map ind_boredom (individuals st) = map (\<lambda>q. Fin (of_int (round q))) qs"
proof -
  let ?st = "\<lparr>average = Fin (of_int (round (double_mean qs))), count = length (users room),
           individuals = map (\<lambda>(i, u).
               \<lparr>ind_id = i, ind_boredom = Math_round (boredom u),
                ind_isBot = (isBot u \<or> False),
                ind_name = (if truthy (name u) then name u else JNull)\<rparr>) (users room),
           roomName = room_name room, roomId = rid\<rparr>"
  have st: "getRoomStats rooms rid = Some ?st"
    using assms by (rule getRoomStats_doubles)
  have len: "length qs = length (users room)"
    using arg_cong [OF assms(3), of length] by simp
  with assms(2) have pos: "0 < length qs" by simp
  have ids: "map ind_id (individuals ?st) = map fst (users room)"
    by (simp add: case_prod_unfold)
  have "map ind_boredom (individuals ?st)
          = map Math_round (map (\<lambda>e. boredom (snd e)) (users room))"
    by (simp add: case_prod_unfold comp_def)
  also have "\<dots> = map (\<lambda>q. Fin (of_int (round q))) qs"
    by (simp add: assms(3) round_def comp_def)
  finally have bs: "map ind_boredom (individuals ?st) = map (\<lambda>q. Fin (of_int (round q))) qs" .
  have ints: "(\<forall>q \<in> set qs. q \<in> \<int>) \<longrightarrow>
                average ?st = Fin (of_int (round (sum_list qs / of_nat (length qs))))"
  proof
    assume i: "\<forall>q \<in> set qs. q \<in> \<int>"
    with assms(4) have iq: "\<forall>q \<in> set qs. q \<in> \<int> \<and> 0 \<le> q \<and> q \<le> 100" by simp
    from double_sum_integers [OF iq, of 0 0] assms(5)
    have ds: "double_sum qs = sum_list qs" by (simp add: double_sum_def)
    from sum_list_Ints [OF i] obtain s :: int where s: "sum_list qs = of_int s"
      by (rule Ints_cases)
    from sum_list_bounds [OF assms(4)] have "(0::rat) \<le> of_int s"
      "(of_int s :: rat) \<le> of_int (100 * int (length qs))"
      by (simp_all add: s)
    then have s0: "0 \<le> s" and s100: "s \<le> 100 * int (length qs)"
      by (simp_all only: of_int_le_iff of_int_0_le_iff)
    from round_nearest_double_quotient [OF s0 pos s100 assms(5)]
    have "round (double_mean qs) = round (sum_list qs / of_nat (length qs))"
      by (simp add: double_mean_def ds s)
    then show "average ?st = Fin (of_int (round (sum_list qs / of_nat (length qs))))"
      by simp
  qed
  have "count ?st = length (users room)" "average ?st = Fin (of_int (round (double_mean qs)))"
    by simp_all
  with st ints ids bs show ?thesis by blast
qed

theorem getRoomStats_nonempty_witness:
  "Map_get [(''ABC123'', sample_room)] ''ABC123'' = Some sample_room
   \<and> users sample_room \<noteq> []
   \<and> map (\<lambda>e. boredom (snd e)) (users sample_room) = map Fin [275 / 4, 50]
   \<and> length [275 / 4, 50 :: rat] \<le> 2 ^ 32
   \<and> (\<exists>st. getRoomStats [(''ABC123'', sample_room)] ''ABC123'' = Some st
          \<and> count st = 2 \<and> average st = Fin 59
          \<and> map ind_id (individuals st) = [''bot-restless'', ''0123456789abcdef'']
          \<and> map ind_boredom (individuals st) = [Fin 69, Fin 50])
   \<and> Map_get [(''ABC123'', sample_live_room)] ''ABC123'' = Some sample_live_room
   \<and> users sample_live_room \<noteq> []
   \<and> map (\<lambda>e. boredom (snd e)) (users sample_live_room) = map Fin [80, 50]
   \<and> (80 :: rat) \<in> \<int> \<and> (50 :: rat) \<in> \<int>
   \<and> round (sum_list [80, 50] / of_nat (length [80, 50 :: rat]) :: rat) = 65
   \<and> (\<exists>st. getRoomStats [(''ABC123'', sample_live_room)] ''ABC123'' = Some st
          \<and> count st = 2 \<and> average st = Fin 65)"
proof -
  have g: "Map_get [(''ABC123'', sample_room)] ''ABC123'' = Some sample_room"
    by (simp add: Map_get_def)
  have ne: "users sample_room \<noteq> []"
    by (simp add: sample_room_def sample_users_def)
  have f: "map (\<lambda>e. boredom (snd e)) (users sample_room) = map Fin [275 / 4, 50]"
    by (simp add: sample_room_def sample_users_def)
  have r: "\<forall>q \<in> set [275 / 4, 50 :: rat]. 0 \<le> q \<and> q \<le> 100" by simp
  have n: "length [275 / 4, 50 :: rat] \<le> 2 ^ 32" by simp
  have m: "double_mean [275 / 4, 50] = 475 / 8" by code_simp
  have r1: "round (475 / 8 :: rat) = 59" by code_simp
  have r2: "round (275 / 4 :: rat) = 69" by code_simp
  have r3: "round (50 :: rat) = 50" by code_simp
  have l: "length (users sample_room) = 2"
    "map fst (users sample_room) = [''bot-restless'', ''0123456789abcdef'']"
    by (simp_all add: sample_room_def sample_users_def)
  have c: "\<exists>st. getRoomStats [(''ABC123'', sample_room)] ''ABC123'' = Some st
          \<and> count st = 2 \<and> average st = Fin 59
          \<and> map ind_id (individuals st) = [''bot-restless'', ''0123456789abcdef'']
          \<and> map ind_boredom (individuals st) = [Fin 69, Fin 50]"
    using getRoomStats_nonempty [OF g ne f r n] unfolding m r1 l by (auto simp: r2 r3)
  have g': "Map_get [(''ABC123'', sample_live_room)] ''ABC123'' = Some sample_live_room"
    by (simp add: Map_get_def)
  have ne': "users sample_live_room \<noteq> []"
    by (simp add: sample_live_room_def)
  have f': "map (\<lambda>e. boredom (snd e)) (users sample_live_room) = map Fin [80, 50]"
    by (simp add: sample_live_room_def)
  have r': "\<forall>q \<in> set [80, 50 :: rat]. 0 \<le> q \<and> q \<le> 100" by simp
  have n': "length [80, 50 :: rat] \<le> 2 ^ 32" by simp
  have i: "(80 :: rat) \<in> \<int>" "(50 :: rat) \<in> \<int>" by simp_all
  then have i': "\<forall>q \<in> set [80, 50 :: rat]. q \<in> \<int>" by simp
  have e: "round (sum_list [80, 50] / of_nat (length [80, 50 :: rat]) :: rat) = 65"
    by code_simp
  have l': "length (users sample_live_room) = 2"
    by (simp add: sample_live_room_def)
  have c': "\<exists>st. getRoomStats [(''ABC123'', sample_live_room)] ''ABC123'' = Some st
          \<and> count st = 2 \<and> average st = Fin 65"
    using getRoomStats_nonempty [OF g' ne' f' r' n'] i' unfolding e l' by auto
  from g ne f n c g' ne' f' i e c' show ?thesis by (intro conjI)
qed

text \<open>
  C1 as stated fails: the average is not always the nearest integer of the exact mean.
  After one tick of the first profile with the draw \<open>0.633333333333332\<close> the global room
  holds \<open>67 - 2 powi (- 46)\<close>, 25, 50 and 80. Their exact mean is below 55.5 and rounds to
  55; the second sum of the code rounds up to 142, its mean is 55.5 and its average 56.
\<close>

theorem getRoomStats_average_double:
  "nearest_double draw_b = draw_b \<and> 0 \<le> draw_b \<and> draw_b < 1
   \<and> bot_tick (hd bots) (Fin draw_b) (initial_rooms 0)
        = [(GLOBAL_ROOM_ID, ticked_room (67 - 1 / 2 ^ 46))]
   \<and> map (\<lambda>e. boredom (snd e)) (users (ticked_room (67 - 1 / 2 ^ 46)))
        = map Fin [67 - 1 / 2 ^ 46, 25, 50, 80]
   \<and> map_option average
        (getRoomStats [(GLOBAL_ROOM_ID, ticked_room (67 - 1 / 2 ^ 46))] GLOBAL_ROOM_ID)
        = Some (Fin 56)
   \<and> round (sum_list [67 - 1 / 2 ^ 46, 25, 50, 80]
             / of_nat (length [67 - 1 / 2 ^ 46 :: rat, 25, 50, 80]) :: rat) = 55"
proof -
  let ?room = "ticked_room (67 - 1 / 2 ^ 46)"
  have d: "nearest_double draw_b = draw_b" by code_simp
  have r0: "0 \<le> draw_b" "draw_b < 1" by (simp_all add: draw_b_def)
  have v: "tick_double 65 65 15 draw_b = 67 - 1 / 2 ^ 46" by code_simp
  have t: "bot_tick (hd bots) (Fin draw_b) (initial_rooms 0) = [(GLOBAL_ROOM_ID, ?room)]"
    unfolding initial_tick [OF r0] v by simp
  have g: "Map_get [(GLOBAL_ROOM_ID, ?room)] GLOBAL_ROOM_ID = Some ?room"
    by (simp add: Map_get_def)
  have ne: "users ?room \<noteq> []"
    by (simp add: ticked_room_def)
  have f: "map (\<lambda>e. boredom (snd e)) (users ?room) = map Fin [67 - 1 / 2 ^ 46, 25, 50, 80]"
    by (simp add: ticked_room_def)
  have r: "\<forall>q \<in> set [67 - 1 / 2 ^ 46, 25, 50, 80 :: rat]. 0 \<le> q \<and> q \<le> 100" by simp
  have n: "length [67 - 1 / 2 ^ 46, 25, 50, 80 :: rat] \<le> 2 ^ 32" by simp
  have m: "double_mean [67 - 1 / 2 ^ 46, 25, 50, 80] = 111 / 2" by code_simp
  have r1: "round (111 / 2 :: rat) = 56" by code_simp
  have a: "map_option average (getRoomStats [(GLOBAL_ROOM_ID, ?room)] GLOBAL_ROOM_ID)
             = Some (Fin 56)"
    unfolding getRoomStats_doubles [OF g ne f r n] m r1 by simp
  have e: "round (sum_list [67 - 1 / 2 ^ 46, 25, 50, 80]
             / of_nat (length [67 - 1 / 2 ^ 46 :: rat, 25, 50, 80]) :: rat) = 55"
    by code_simp
  from d r0 t f a e show ?thesis by (intro conjI)
qed

text \<open>
  C2. For a room of the registry whose participant table is empty, \<open>getRoomStats\<close> returns
  a statistics object (not \<open>null\<close>, no exception) with \<open>count = 0\<close> and \<open>average = 50\<close>.
\<close>

theorem getRoomStats_empty:
  assumes "Map_get rooms rid = Some room" and "users room = []"
  shows "\<exists>st. getRoomStats rooms rid = Some st \<and> count st = 0 \<and> average st = Fin 50
           \<and> individuals st = []"
  using assms by (simp add: getRoomStats_def)

theorem getRoomStats_empty_witness:
  "Map_get [(''ABC123'', \<lparr>users = [], createdAt = 0, room_name = JStr ''Room ABC123'',
                          isGlobal = False\<rparr>)] ''ABC123''
     = Some \<lparr>users = [], createdAt = 0, room_name = JStr ''Room ABC123'', isGlobal = False\<rparr>
   \<and> users \<lparr>users = [], createdAt = 0, room_name = JStr ''Room ABC123'', isGlobal = False\<rparr> = []
   \<and> (\<exists>st. getRoomStats [(''ABC123'', \<lparr>users = [], createdAt = 0,
                            room_name = JStr ''Room ABC123'', isGlobal = False\<rparr>)] ''ABC123''
            = Some st \<and> count st = 0 \<and> average st = Fin 50 \<and> individuals st = [])"
proof -
  let ?r = "\<lparr>users = [], createdAt = 0, room_name = JStr ''Room ABC123'', isGlobal = False\<rparr>"
  have g: "Map_get [(''ABC123'', ?r)] ''ABC123'' = Some ?r"
    by (simp add: Map_get_def)
  have u: "users ?r = []" by simp
  from getRoomStats_empty [OF g u] g u show ?thesis by simp
qed

subsection \<open>Value updates\<close>

lemma clamp_round_range:
  assumes "as_number v = Some x"
  shows "\<exists>n::int. Math_max (Fin 0) (Math_min (Fin 100) (Math_round x)) = Fin (of_int n)
            \<and> 0 \<le> n \<and> n \<le> 100"
proof (cases x)
  case (Fin q)
  let ?n = "max 0 (min 100 \<lfloor>q + 1 / 2\<rfloor>)"
  have "Math_max (Fin 0) (Math_min (Fin 100) (Math_round x)) = Fin (of_int ?n)"
    by (simp add: Fin min_def max_def)
  moreover have "0 \<le> ?n \<and> ?n \<le> 100" by simp
  ultimately show ?thesis by blast
next
  case PInf
  then have "Math_max (Fin 0) (Math_min (Fin 100) (Math_round x)) = Fin (of_int 100)" by simp
  then show ?thesis by (intro exI [of _ 100]) simp
next
  case NInf
  then have "Math_max (Fin 0) (Math_min (Fin 100) (Math_round x)) = Fin (of_int 0)" by simp
  then show ?thesis by (intro exI [of _ 0]) simp
next
  case NaN
  with assms show ?thesis by (cases v) simp_all
qed

text \<open>
  C3. When the message of a connection parses to a value whose \<open>type\<close> is \<open>update\<close>
  and whose \<open>boredom\<close> is a number, and the participant of the connection is still in the
  table of its room, then after the handler the participant is in the table with an integer
  between 0 and 100 as its value, whatever the number was (an infinity included).
\<close>

theorem update_stores_clamped_integer:
  assumes "JSON_parse data = Inr message"
    and "get_prop message ''type'' = Inr (Some (JStr ''update''))"
    and "get_prop message ''boredom'' = Inr (Some v)"
    and "as_number v = Some x"
    and "Map_get (users room) uid = Some usr"
  shows "\<exists>usr' n. Map_get (users (on_message JSON_parse room uid data)) uid = Some usr'
            \<and> boredom usr' = Fin (of_int n) \<and> 0 \<le> n \<and> n \<le> 100"
proof -
  from clamp_round_range [OF assms(4)] obtain n :: int where
    n: "Math_max (Fin 0) (Math_min (Fin 100) (Math_round x)) = Fin (of_int n)" "0 \<le> n" "n \<le> 100"
    by blast
  let ?room1 = "room\<lparr>users := Map_set (users room) uid (usr\<lparr>boredom := Fin (of_int n)\<rparr>)\<rparr>"
  have u: "handle_update room uid message = Inr ?room1"
    using assms(2-5) n(1) by (simp add: handle_update_def)
  have s: "handle_setName ?room1 uid message = Inr ?room1"
    using assms(2) by (simp add: handle_setName_def)
  have "on_message JSON_parse room uid data = ?room1"
    using assms(1) u s by (simp add: on_message_def)
  then have "Map_get (users (on_message JSON_parse room uid data)) uid
               = Some (usr\<lparr>boredom := Fin (of_int n)\<rparr>)"
    by (simp add: Map_get_set)
  with n(2,3) show ?thesis by auto
qed


theorem update_stores_clamped_integer_witness:
  "sample_parse sample_update_text = Inr sample_update
   \<and> get_prop sample_update ''type'' = Inr (Some (JStr ''update''))
   \<and> get_prop sample_update ''boredom'' = Inr (Some (JNum (275 / 2)))
   \<and> as_number (JNum (275 / 2)) = Some (Fin (275 / 2))
   \<and> Map_get (users sample_room) ''0123456789abcdef''
        = Some \<lparr>boredom = Fin 50, ws = Some 7, isBot = False, name = JNull\<rparr>
   \<and> (\<exists>usr' n. Map_get (users (on_message sample_parse sample_room ''0123456789abcdef''
                                  sample_update_text)) ''0123456789abcdef'' = Some usr'
          \<and> boredom usr' = Fin (of_int n) \<and> 0 \<le> n \<and> n \<le> 100)"
proof -
  have p: "sample_parse sample_update_text = Inr sample_update"
    by (simp add: sample_parse_def sample_update_text_def quoted_def)
  have t: "get_prop sample_update ''type'' = Inr (Some (JStr ''update''))"
    by (simp add: sample_update_def)
  have b: "get_prop sample_update ''boredom'' = Inr (Some (JNum (275 / 2)))"
    by (simp add: sample_update_def)
  have a: "as_number (JNum (275 / 2)) = Some (Fin (275 / 2))" by simp
  have g: "Map_get (users sample_room) ''0123456789abcdef''
        = Some \<lparr>boredom = Fin 50, ws = Some 7, isBot = False, name = JNull\<rparr>"
    by (simp add: sample_room_def sample_users_def Map_get_def)
  from p t b a g
    update_stores_clamped_integer
      [where JSON_parse = sample_parse and data = sample_update_text, OF p t b a g]
  show ?thesis
    by (intro conjI)
qed

subsection \<open>The sweep\<close>

lemma cleanup_step_filter:
  "cleanup_step now x acc =
     filter (\<lambda>e. \<not> (fst e = fst x \<and> fst x \<noteq> GLOBAL_ROOM_ID \<and> length (realUsers (snd x)) = 0
                      \<and> now - createdAt (snd x) > 3600000)) acc"
  by (auto simp: cleanup_step_def Map_delete_def intro: filter_cong)

lemma fold_cleanup_step:
  "fold (cleanup_step now) xs acc =
     filter (\<lambda>e. \<not> (\<exists>x \<in> set xs. fst x = fst e \<and> fst x \<noteq> GLOBAL_ROOM_ID
                        \<and> length (realUsers (snd x)) = 0
                        \<and> now - createdAt (snd x) > 3600000)) acc"
proof (induction xs arbitrary: acc)
  case Nil
  show ?case by simp
next
  case (Cons x xs)
  have "fold (cleanup_step now) (x # xs) acc = fold (cleanup_step now) xs (cleanup_step now x acc)"
    by simp
  also have "\<dots> = filter (\<lambda>e. \<not> (\<exists>y \<in> set xs. fst y = fst e \<and> fst y \<noteq> GLOBAL_ROOM_ID
                        \<and> length (realUsers (snd y)) = 0
                        \<and> now - createdAt (snd y) > 3600000)) (cleanup_step now x acc)"
    by (rule Cons.IH)
  also have "\<dots> = filter (\<lambda>e. \<not> (\<exists>y \<in> set (x # xs). fst y = fst e \<and> fst y \<noteq> GLOBAL_ROOM_ID
                        \<and> length (realUsers (snd y)) = 0
                        \<and> now - createdAt (snd y) > 3600000)) acc"
    unfolding cleanup_step_filter filter_filter by (rule filter_cong) auto
  finally show ?case .
qed

lemma Map_get_filter:
  assumes "distinct (map fst m)"
  shows "Map_get (filter keep m) k =
           (case Map_get m k of
              None \<Rightarrow> None
            | Some v \<Rightarrow> if keep (k, v) then Some v else None)"
  using assms
proof (induction m)
  case Nil
  then show ?case by (simp add: Map_get_def)
next
  case (Cons e m)
  from Cons.prems have absent: "map_of m (fst e) = None"
    by (simp add: map_of_eq_None_iff)
  from Cons.prems have "distinct (map fst m)" by simp
  with Cons.IH have ih: "Map_get (filter keep m) k =
           (case Map_get m k of
              None \<Rightarrow> None
            | Some v \<Rightarrow> if keep (k, v) then Some v else None)"
    by simp
  show ?case
  proof (cases "fst e = k")
    case True
    with absent ih have "Map_get (filter keep m) k = None"
      by (simp add: Map_get_def)
    with True show ?thesis
      by (cases e) (auto simp: Map_get_def)
  next
    case False
    with ih show ?thesis
      by (cases e) (auto simp: Map_get_def)
  qed
qed

lemma distinct_entry_iff:
  "distinct (map fst xs) \<Longrightarrow> (x \<in> set xs) = (map_of xs (fst x) = Some (snd x))"
  by (metis map_of_SomeD map_of_is_SomeI prod.collapse)

text \<open>
  C5. After one run of the sweep at time \<open>now\<close>, a room of the registry is absent when it
  is not the global room, has no participant with a socket and was created more than
  3600000 ms before \<open>now\<close>; every other room of the registry, the global room among
  them whatever its age and its participants, is still there as it was. The keys of a
  \<open>Map\<close> are distinct.
\<close>

theorem cleanup_evicts:
  assumes "distinct (map fst rooms)"
  shows "Map_get (cleanup now rooms) k =
     (case Map_get rooms k of
        None \<Rightarrow> None
      | Some room \<Rightarrow>
          if k \<noteq> GLOBAL_ROOM_ID \<and> length (realUsers room) = 0
               \<and> now - createdAt room > 3600000
          then None else Some room)"
proof (cases "Map_get rooms k")
  case None
  then show ?thesis
    using assms by (simp add: cleanup_def fold_cleanup_step Map_get_filter)
next
  case (Some room)
  then have m: "map_of rooms k = Some room"
    by (simp add: Map_get_def)
  have "(\<exists>x \<in> set rooms. fst x = k \<and> fst x \<noteq> GLOBAL_ROOM_ID \<and> length (realUsers (snd x)) = 0
            \<and> now - createdAt (snd x) > 3600000)
        = (k \<noteq> GLOBAL_ROOM_ID \<and> length (realUsers room) = 0 \<and> now - createdAt room > 3600000)"
    (is "?L = ?R")
  proof
    assume ?L
    then obtain x where x: "x \<in> set rooms" "fst x = k" "fst x \<noteq> GLOBAL_ROOM_ID"
      "length (realUsers (snd x)) = 0" "now - createdAt (snd x) > 3600000"
      by blast
    from x(1) have "map_of rooms (fst x) = Some (snd x)"
      by (simp add: distinct_entry_iff [OF assms, symmetric])
    with m x(2) have "snd x = room" by simp
    with x show ?R by simp
  next
    assume r: ?R
    from m have "(k, room) \<in> set rooms" by (rule map_of_SomeD)
    with r show ?L by (intro bexI [of _ "(k, room)"]) simp_all
  qed
  then show ?thesis
    by (simp only: cleanup_def fold_cleanup_step Map_get_filter [OF assms] Some
          option.case fst_conv split: if_splits) simp
qed

theorem cleanup_evicts_witness:
  "distinct (map fst sample_registry)
   \<and> Map_get sample_registry ''AAAAAA''
        = Some \<lparr>users = [], createdAt = 0, room_name = JStr ''Room AAAAAA'', isGlobal = False\<rparr>
   \<and> Map_get (cleanup 4000000 sample_registry) ''AAAAAA'' = None
   \<and> length (realUsers (globalRoom 0)) = 0
   \<and> Map_get (cleanup 4000000 sample_registry) GLOBAL_ROOM_ID = Some (globalRoom 0)
   \<and> length (realUsers sample_room) = 1
   \<and> Map_get (cleanup 4000000 sample_registry) ''ABC123'' = Some sample_room"
proof -
  have d: "distinct (map fst sample_registry)"
    by (simp add: sample_registry_def GLOBAL_ROOM_ID_def)
  have g1: "Map_get sample_registry ''AAAAAA''
        = Some \<lparr>users = [], createdAt = 0, room_name = JStr ''Room AAAAAA'', isGlobal = False\<rparr>"
    by (simp add: sample_registry_def Map_get_def GLOBAL_ROOM_ID_def)
  have g2: "Map_get sample_registry GLOBAL_ROOM_ID = Some (globalRoom 0)"
    by (simp add: sample_registry_def Map_get_def)
  have g3: "Map_get sample_registry ''ABC123'' = Some sample_room"
    by (simp add: sample_registry_def Map_get_def GLOBAL_ROOM_ID_def)
  have r1: "realUsers \<lparr>users = [], createdAt = 0, room_name = JStr ''Room AAAAAA'',
                       isGlobal = False\<rparr> = []"
    by (simp add: realUsers_def)
  have r2: "length (realUsers (globalRoom 0)) = 0"
    by (simp add: realUsers_def globalRoom_def bots_def)
  have r3: "length (realUsers sample_room) = 1"
    by (simp add: realUsers_def sample_room_def sample_users_def)
  have c1: "Map_get (cleanup 4000000 sample_registry) ''AAAAAA'' = None"
    using cleanup_evicts [OF d, of 4000000 "''AAAAAA''"]
    by (simp add: g1 r1 GLOBAL_ROOM_ID_def)
  have c2: "Map_get (cleanup 4000000 sample_registry) GLOBAL_ROOM_ID = Some (globalRoom 0)"
    using cleanup_evicts [OF d, of 4000000 GLOBAL_ROOM_ID] by (simp add: g2)
  have c3: "Map_get (cleanup 4000000 sample_registry) ''ABC123'' = Some sample_room"
    using cleanup_evicts [OF d, of 4000000 "''ABC123''"] by (simp add: g3 r3)
  from d g1 c1 r2 c2 r3 c3 show ?thesis by (intro conjI)
qed

subsection \<open>The room of a new connection\<close>

lemma Map_has_iff: "Map_has m k = (k \<in> fst ` set m)"
  by (simp add: Map_has_def map_of_eq_None_iff)

lemma Map_has_get: "Map_has m k = (\<exists>v. Map_get m k = Some v)"
  by (simp add: Map_has_def Map_get_def)

lemma Map_set_absent: "\<not> Map_has m k \<Longrightarrow> Map_set m k v = m @ [(k, v)]"
  by (induction m) (auto simp: Map_has_def split: if_splits)


lemma registry_ok_no_empty_key: "registry_ok rooms \<Longrightarrow> \<not> Map_has rooms []"
  by (auto simp: registry_ok_def Map_has_iff GLOBAL_ROOM_ID_def)

lemma registry_ok_initial: "registry_ok (initial_rooms now)"
  by (simp add: registry_ok_def initial_rooms_def Map_has_def)

text \<open>The operations that change the registry keep \<open>registry_ok\<close>.\<close>

lemma registry_ok_Map_set:
  assumes "registry_ok rooms" and "k = GLOBAL_ROOM_ID \<or> (length k = 6 \<and> code_regex k)"
  shows "registry_ok (Map_set rooms k v)"
  using assms
  by (auto simp: registry_ok_def distinct_Map_set Map_has_set keys_Map_set)

lemma resolve_room_registry:
  "fst (resolve_room rooms now room_param) = rooms
   \<or> (\<exists>k v. (length k = 6 \<and> code_regex k)
            \<and> resolve_room rooms now room_param = (Map_set rooms k v, k))"
  by (simp add: resolve_room_def Let_def) blast

lemma registry_ok_resolve_room:
  assumes "registry_ok rooms"
  shows "registry_ok (fst (resolve_room rooms now room_param))"
  using resolve_room_registry [of rooms now room_param]
proof
  assume "fst (resolve_room rooms now room_param) = rooms"
  with assms show ?thesis by simp
next
  assume "\<exists>k v. (length k = 6 \<and> code_regex k)
            \<and> resolve_room rooms now room_param = (Map_set rooms k v, k)"
  then obtain k v where "length k = 6 \<and> code_regex k"
    "resolve_room rooms now room_param = (Map_set rooms k v, k)" by blast
  with assms show ?thesis by (simp add: registry_ok_Map_set)
qed

lemma resolve_room_key:
  assumes "registry_ok rooms" and "resolve_room rooms now room_param = (rooms', rid)"
  shows "Map_has rooms' rid"
proof -
  from assms(1) have g: "Map_has rooms GLOBAL_ROOM_ID" by (simp add: registry_ok_def)
  let ?rid = "case room_param of Some s \<Rightarrow> if s \<noteq> [] then s else GLOBAL_ROOM_ID
              | None \<Rightarrow> GLOBAL_ROOM_ID"
  show ?thesis
  proof (cases "Map_has rooms ?rid")
    case True
    with assms(2) show ?thesis by (simp add: resolve_room_def Let_def)
  next
    case False
    show ?thesis
    proof (cases "length ?rid = 6 \<and> code_regex ?rid")
      case True
      with False assms(2) show ?thesis
        by (auto simp: resolve_room_def Let_def Map_has_set)
    next
      case False
      with \<open>\<not> Map_has rooms ?rid\<close> assms(2) g show ?thesis
        by (auto simp: resolve_room_def Let_def)
    qed
  qed
qed

lemma registry_ok_connection:
  assumes "registry_ok rooms"
    and "connection rooms now uid sock room_param name_param = Inr (rooms', rid, st)"
  shows "registry_ok rooms'"
proof -
  obtain rooms1 rid1 where r: "resolve_room rooms now room_param = (rooms1, rid1)"
    by (cases "resolve_room rooms now room_param")
  from registry_ok_resolve_room [OF assms(1), of now room_param] r
  have ok1: "registry_ok rooms1" by simp
  from resolve_room_key [OF assms(1) r] have "rid1 \<in> fst ` set rooms1"
    by (simp add: Map_has_iff)
  with ok1 have k: "rid1 = GLOBAL_ROOM_ID \<or> (length rid1 = 6 \<and> code_regex rid1)"
    unfolding registry_ok_def by blast
  show ?thesis
  proof (cases "Map_get rooms1 rid1")
    case None
    with assms(2) r show ?thesis by (simp add: connection_def)
  next
    case (Some room)
    with assms(2) r have "\<exists>v. rooms' = Map_set rooms1 rid1 v"
      by (simp add: connection_def Let_def) blast
    then obtain v where "rooms' = Map_set rooms1 rid1 v" ..
    with ok1 k show ?thesis by (simp add: registry_ok_Map_set)
  qed
qed

lemma create_room_stores:
  assumes "JSON_parse (if bdy \<noteq> [] then bdy else ''{}'') = Inr data"
    and "get_prop data ''name'' = Inr nm"
  shows "fst (create_room JSON_parse rid now rooms bdy) =
     Map_set rooms rid
        \<lparr>users = [], createdAt = now,
         room_name = (case nm of Some n \<Rightarrow> if truthy n then n else JStr (''Room '' @ rid)
                      | None \<Rightarrow> JStr (''Room '' @ rid)),
         isGlobal = False\<rparr>"
  using assms by (simp add: create_room_def Let_def)

lemma create_room_registry:
  "fst (create_room JSON_parse rid now rooms bdy) = rooms
   \<or> (\<exists>v. fst (create_room JSON_parse rid now rooms bdy) = Map_set rooms rid v)"
proof (cases "JSON_parse (if bdy \<noteq> [] then bdy else ''{}'')")
  case (Inl err)
  then show ?thesis by (simp add: create_room_def)
next
  case (Inr data)
  show ?thesis
  proof (cases "get_prop data ''name''")
    case (Inl err)
    with Inr show ?thesis by (simp add: create_room_def)
  next
    case (Inr nm)
    from create_room_stores [where JSON_parse = JSON_parse and bdy = bdy and rid = rid
           and now = now and rooms = rooms,
           OF \<open>JSON_parse (if bdy \<noteq> [] then bdy else ''{}'') = Inr data\<close> Inr]
    have "\<exists>v. fst (create_room JSON_parse rid now rooms bdy) = Map_set rooms rid v"
      by blast
    then show ?thesis ..
  qed
qed

lemma registry_ok_create_room:
  assumes "registry_ok rooms" and "length rid = 6" and "code_regex rid"
  shows "registry_ok (fst (create_room JSON_parse rid now rooms bdy))"
  using create_room_registry [of JSON_parse rid now rooms bdy]
proof
  assume "fst (create_room JSON_parse rid now rooms bdy) = rooms"
  with assms(1) show ?thesis by simp
next
  assume "\<exists>v. fst (create_room JSON_parse rid now rooms bdy) = Map_set rooms rid v"
  then obtain v where "fst (create_room JSON_parse rid now rooms bdy) = Map_set rooms rid v" ..
  with assms show ?thesis by (simp add: registry_ok_Map_set)
qed

lemma bot_tick_registry:
  "bot_tick b r rooms = rooms \<or> (\<exists>v. bot_tick b r rooms = Map_set rooms GLOBAL_ROOM_ID v)"
proof (cases "Map_get rooms GLOBAL_ROOM_ID")
  case None
  then show ?thesis by (simp add: bot_tick_def)
next
  case (Some room)
  show ?thesis
  proof (cases "Map_get (users room) (bot_id b)")
    case None
    with Some show ?thesis by (simp add: bot_tick_def)
  next
    case (Some usr)
    with \<open>Map_get rooms GLOBAL_ROOM_ID = Some room\<close>
    have "\<exists>v. bot_tick b r rooms = Map_set rooms GLOBAL_ROOM_ID v"
      by (simp add: bot_tick_def Let_def) blast
    then show ?thesis ..
  qed
qed

lemma registry_ok_bot_tick:
  assumes "registry_ok rooms"
  shows "registry_ok (bot_tick b r rooms)"
  using bot_tick_registry [of b r rooms]
proof
  assume "bot_tick b r rooms = rooms"
  with assms show ?thesis by simp
next
  assume "\<exists>v. bot_tick b r rooms = Map_set rooms GLOBAL_ROOM_ID v"
  then obtain v where "bot_tick b r rooms = Map_set rooms GLOBAL_ROOM_ID v" ..
  with assms show ?thesis by (simp add: registry_ok_Map_set)
qed

lemma registry_ok_cleanup:
  assumes "registry_ok rooms"
  shows "registry_ok (cleanup now rooms)"
proof -
  let ?keep = "\<lambda>e. \<not> (\<exists>x \<in> set rooms. fst x = fst e \<and> fst x \<noteq> GLOBAL_ROOM_ID
                        \<and> length (realUsers (snd x)) = 0
                        \<and> now - createdAt (snd x) > 3600000)"
  have c: "cleanup now rooms = filter ?keep rooms"
    unfolding cleanup_def by (rule fold_cleanup_step)
  from assms have "distinct (map fst rooms)" by (simp add: registry_ok_def)
  then have d: "distinct (map fst (filter ?keep rooms))"
    by (rule distinct_map_filter)
  from assms obtain g where g: "(GLOBAL_ROOM_ID, g) \<in> set rooms"
    unfolding registry_ok_def Map_has_iff by force
  have "?keep (GLOBAL_ROOM_ID, g)" by simp
  with g have "(GLOBAL_ROOM_ID, g) \<in> set (filter ?keep rooms)" by simp
  then have "fst (GLOBAL_ROOM_ID, g) \<in> fst ` set (filter ?keep rooms)" by (rule imageI)
  then have h: "Map_has (filter ?keep rooms) GLOBAL_ROOM_ID"
    by (simp add: Map_has_iff)
  have "set (filter ?keep rooms) \<subseteq> set rooms" by (rule filter_is_subset)
  with assms have "\<forall>k \<in> fst ` set (filter ?keep rooms).
                      k = GLOBAL_ROOM_ID \<or> (length k = 6 \<and> code_regex k)"
    unfolding registry_ok_def by blast
  with d h show ?thesis unfolding c registry_ok_def by blast
qed

text \<open>
  The codes \<open>generateRoomCode\<close> draws are room codes: six characters, each a digit or a
  capital letter from A to F.
\<close>

lemma hex_digits_upper_alnum:
  "set ''0123456789ABCDEF'' \<subseteq> set ''ABCDEFGHIJKLMNOPQRSTUVWXYZ0123456789''"
  by simp

lemma hex_code_is_room_code:
  assumes "length rid = 6" and "list_all (\<lambda>c. c \<in> set ''0123456789ABCDEF'') rid"
  shows "code_regex rid"
proof -
  from assms(1) have "rid \<noteq> []" by auto
  moreover from assms(2) have "list_all upper_alnum rid"
    unfolding upper_alnum_def list_all_iff using hex_digits_upper_alnum by blast
  ultimately show ?thesis by (simp add: code_regex_def)
qed

text \<open>
  C4. In a registry that holds the global room and whose other keys are room codes, a
  connection that asks for the room \<open>ident\<close> is put in a room that exists: in the room
  \<open>ident\<close> when the registry has it; in a new room \<open>ident\<close> with the default name and no
  participant, added to the registry, when the registry does not have it and \<open>ident\<close> is six
  capital letters or digits; in the global room, with the registry as it was, otherwise.
  The connection handler then does not throw.
\<close>

theorem resolve_room_cases:
  assumes "registry_ok rooms"
  shows "\<exists>rooms' rid room.
      resolve_room rooms now (Some ident) = (rooms', rid)
    \<and> Map_get rooms' rid = Some room
    \<and> (Map_has rooms ident \<longrightarrow> rid = ident \<and> rooms' = rooms)
    \<and> (\<not> Map_has rooms ident \<and> length ident = 6 \<and> code_regex ident \<longrightarrow>
          rid = ident \<and> rooms' = rooms @ [(ident, room)]
          \<and> room = \<lparr>users = [], createdAt = now, room_name = JStr (''Room '' @ ident),
                    isGlobal = False\<rparr>)
    \<and> (\<not> Map_has rooms ident \<and> \<not> (length ident = 6 \<and> code_regex ident) \<longrightarrow>
          rid = GLOBAL_ROOM_ID \<and> rooms' = rooms)
    \<and> (\<exists>res. connection rooms now uid sock (Some ident) name_param = Inr res)"
proof -
  from assms obtain g where g: "Map_get rooms GLOBAL_ROOM_ID = Some g"
    by (auto simp: registry_ok_def Map_has_get)
  then have hg: "Map_has rooms GLOBAL_ROOM_ID" by (simp add: Map_has_get)
  have ne: "\<not> Map_has rooms []" using assms by (rule registry_ok_no_empty_key)
  let ?new = "\<lparr>users = [], createdAt = now, room_name = JStr (''Room '' @ ident),
               isGlobal = False\<rparr>"
  consider (present) "Map_has rooms ident"
    | (create) "\<not> Map_has rooms ident" "length ident = 6 \<and> code_regex ident"
    | (fallback) "\<not> Map_has rooms ident" "\<not> (length ident = 6 \<and> code_regex ident)"
    by blast
  then show ?thesis
  proof cases
    case present
    with ne have "ident \<noteq> []" by auto
    with present have r: "resolve_room rooms now (Some ident) = (rooms, ident)"
      by (simp add: resolve_room_def)
    from present obtain room where room: "Map_get rooms ident = Some room"
      by (auto simp: Map_has_get)
    have "\<exists>res. connection rooms now uid sock (Some ident) name_param = Inr res"
      by (simp add: connection_def r room Let_def)
    with r room present show ?thesis by simp
  next
    case create
    then have "ident \<noteq> []" by auto
    with create have r: "resolve_room rooms now (Some ident) = (Map_set rooms ident ?new, ident)"
      by (simp add: resolve_room_def)
    have m: "Map_set rooms ident ?new = rooms @ [(ident, ?new)]"
      using create(1) by (rule Map_set_absent)
    have room: "Map_get (Map_set rooms ident ?new) ident = Some ?new"
      by (simp add: Map_get_set)
    have "\<exists>res. connection rooms now uid sock (Some ident) name_param = Inr res"
      by (simp add: connection_def r Map_get_set Let_def)
    with r room create m show ?thesis by simp
  next
    case fallback
    then have r: "resolve_room rooms now (Some ident) = (rooms, GLOBAL_ROOM_ID)"
      using hg by (auto simp: resolve_room_def)
    have "\<exists>res. connection rooms now uid sock (Some ident) name_param = Inr res"
      by (simp add: connection_def r g Let_def)
    with r g fallback show ?thesis by simp
  qed
qed


theorem resolve_room_cases_witness:
  "registry_ok (initial_rooms 0)
   \<and> Map_has (initial_rooms 0) ''global''
   \<and> resolve_room (initial_rooms 0) 5 (Some ''global'') = (initial_rooms 0, ''global'')
   \<and> \<not> Map_has (initial_rooms 0) ''ABC123'' \<and> length ''ABC123'' = 6 \<and> code_regex ''ABC123''
   \<and> resolve_room (initial_rooms 0) 5 (Some ''ABC123'')
        = (initial_rooms 0 @ [(''ABC123'', \<lparr>users = [], createdAt = 5,
                                room_name = JStr ''Room ABC123'', isGlobal = False\<rparr>)], ''ABC123'')
   \<and> \<not> Map_has (initial_rooms 0) ''abc123'' \<and> \<not> code_regex ''abc123''
   \<and> resolve_room (initial_rooms 0) 5 (Some ''abc123'') = (initial_rooms 0, GLOBAL_ROOM_ID)"
proof -
  have ok: "registry_ok (initial_rooms 0)" by (rule registry_ok_initial)
  have h1: "Map_has (initial_rooms 0) ''global''"
    by (simp add: initial_rooms_def Map_has_def GLOBAL_ROOM_ID_def)
  have h2: "\<not> Map_has (initial_rooms 0) ''ABC123''" "length ''ABC123'' = 6"
    "code_regex ''ABC123''"
    by (simp_all add: initial_rooms_def Map_has_def GLOBAL_ROOM_ID_def code_regex_def
          upper_alnum_def)
  have h3: "\<not> Map_has (initial_rooms 0) ''abc123''" "\<not> code_regex ''abc123''"
    by (simp_all add: initial_rooms_def Map_has_def GLOBAL_ROOM_ID_def code_regex_def
          upper_alnum_def)
  have c1: "resolve_room (initial_rooms 0) 5 (Some ''global'') = (initial_rooms 0, ''global'')"
    using resolve_room_cases [OF ok, of 5 "''global''"] h1 by auto
  have c2: "resolve_room (initial_rooms 0) 5 (Some ''ABC123'')
        = (initial_rooms 0 @ [(''ABC123'', \<lparr>users = [], createdAt = 5,
                                room_name = JStr ''Room ABC123'', isGlobal = False\<rparr>)], ''ABC123'')"
    using resolve_room_cases [OF ok, of 5 "''ABC123''"] h2 by auto
  have c3: "resolve_room (initial_rooms 0) 5 (Some ''abc123'') = (initial_rooms 0, GLOBAL_ROOM_ID)"
    using resolve_room_cases [OF ok, of 5 "''abc123''"] h3 by auto
  from ok h1 c1 h2 c2 h3 c3 show ?thesis by (intro conjI)
qed

subsection \<open>The HTTP handlers\<close>

lemma getRoomStats_count:
  "getRoomStats rooms rid = Some st \<Longrightarrow> Map_get rooms rid = Some room \<Longrightarrow>
     count st = length (users room)"
  by (auto simp: getRoomStats_def Let_def)

lemma getRoomStats_None: "Map_get rooms rid = None \<Longrightarrow> getRoomStats rooms rid = None"
  by (simp add: getRoomStats_def)

lemma getRoomStats_Some:
  "Map_get rooms rid = Some room \<Longrightarrow> \<exists>st. getRoomStats rooms rid = Some st"
  by (simp add: getRoomStats_def Let_def)

text \<open>
  C7 (amended). A \<open>GET /health\<close> request is answered with status 200, the status text
  \<open>ok\<close>, the number of rooms of the registry, and as \<open>globalUsers\<close> the number of all
  entries of the table of the global room, simulated participants included (0 when the
  registry has no global room). The registry does not change.
\<close>

theorem health_response:
  assumes "http_method req = ''GET''" and "url req = ''/health''"
  shows "http_handler JSON_parse rid now rooms req =
     (rooms, \<lparr>code = 200,
              content = Health ''ok'' (Map_size rooms)
                (case Map_get rooms GLOBAL_ROOM_ID of
                   Some room \<Rightarrow> length (users room)
                 | None \<Rightarrow> 0)\<rparr>)"
proof (cases "Map_get rooms GLOBAL_ROOM_ID")
  case None
  then show ?thesis
    using assms by (simp add: http_handler_def getRoomStats_None)
next
  case (Some room)
  from getRoomStats_Some [OF Some] obtain st where st: "getRoomStats rooms GLOBAL_ROOM_ID = Some st"
    by blast
  from getRoomStats_count [OF st Some] have "count st = length (users room)" .
  then show ?thesis
    using assms Some st by (simp add: http_handler_def)
qed

theorem health_response_witness:
  "http_method \<lparr>http_method = ''GET'', url = ''/health'', body = []\<rparr> = ''GET''
   \<and> url \<lparr>http_method = ''GET'', url = ''/health'', body = []\<rparr> = ''/health''
   \<and> http_handler sample_parse ''ABC123'' 5 sample_registry
        \<lparr>http_method = ''GET'', url = ''/health'', body = []\<rparr>
       = (sample_registry, \<lparr>code = 200, content = Health ''ok'' 3 4\<rparr>)"
proof -
  let ?req = "\<lparr>http_method = ''GET'', url = ''/health'', body = []\<rparr>"
  have m: "http_method ?req = ''GET''" and u: "url ?req = ''/health''" by simp_all
  have g: "Map_get sample_registry GLOBAL_ROOM_ID = Some (globalRoom 0)"
    by (simp add: sample_registry_def Map_get_def)
  have n: "length (users (globalRoom 0)) = 4"
    by (simp add: globalRoom_def bots_def)
  have s: "Map_size sample_registry = 3"
    by (simp add: Map_size_def sample_registry_def)
  have "http_handler sample_parse ''ABC123'' 5 sample_registry ?req
       = (sample_registry, \<lparr>code = 200, content = Health ''ok'' 3 4\<rparr>)"
    using health_response [OF m u, of sample_parse "''ABC123''" 5 sample_registry]
    by (simp only: g n s option.case)
  with m u show ?thesis by (intro conjI)
qed

text \<open>
  C7 as stated fails: at the start the global room holds the four simulated participants
  and no connection, and \<open>globalUsers\<close> is 4 while no participant has a socket.
\<close>

theorem health_counts_bots:
  "http_handler sample_parse ''ABC123'' 5 (initial_rooms 0)
        \<lparr>http_method = ''GET'', url = ''/health'', body = []\<rparr>
     = (initial_rooms 0, \<lparr>code = 200, content = Health ''ok'' 1 4\<rparr>)
   \<and> Map_get (initial_rooms 0) GLOBAL_ROOM_ID = Some (globalRoom 0)
   \<and> length (realUsers (globalRoom 0)) = 0
   \<and> content (snd (http_handler sample_parse ''ABC123'' 5 (initial_rooms 0)
                       \<lparr>http_method = ''GET'', url = ''/health'', body = []\<rparr>))
        \<noteq> Health ''ok'' (Map_size (initial_rooms 0)) (length (realUsers (globalRoom 0)))"
  by (simp add: http_handler_def getRoomStats_def initial_rooms_def Map_get_def Map_size_def
        realUsers_def globalRoom_def bots_def)


lemma create_room_ok:
  assumes "JSON_parse (if bdy \<noteq> [] then bdy else ''{}'') = Inr data"
    and "get_prop data ''name'' = Inr nm"
    and "\<not> to_string_throws (case nm of Some n \<Rightarrow> if truthy n then n else JStr (''Room '' @ rid)
                                | None \<Rightarrow> JStr (''Room '' @ rid))"
  shows "snd (create_room JSON_parse rid now rooms bdy) =
      \<lparr>code = 200,
       content = Created rid
         (as_sent (case nm of Some n \<Rightarrow> if truthy n then n else JStr (''Room '' @ rid)
                   | None \<Rightarrow> JStr (''Room '' @ rid)))\<rparr>"
  using assms by (simp add: create_room_def Let_def)











text \<open>
  C10. With \<open>JSON.parse("{}")\<close> the empty object: a request with an empty body is answered
  with 200 and creates a room named \<open>Room\<close> followed by its code; so does a request whose
  body parses to an object with no \<open>name\<close> or with the empty string as \<open>name\<close>.
\<close>

theorem create_room_default_name:
  assumes "JSON_parse ''{}'' = Inr (JObj [])"
  shows "create_room JSON_parse rid now rooms []
           = (Map_set rooms rid \<lparr>users = [], createdAt = now,
                                 room_name = JStr (''Room '' @ rid), isGlobal = False\<rparr>,
              \<lparr>code = 200, content = Created rid (JStr (''Room '' @ rid))\<rparr>)
       \<and> (\<forall>bdy fs. bdy \<noteq> [] \<and> JSON_parse bdy = Inr (JObj fs)
              \<and> (map_of fs ''name'' = None \<or> map_of fs ''name'' = Some (JStr [])) \<longrightarrow>
            create_room JSON_parse rid now rooms bdy
              = (Map_set rooms rid \<lparr>users = [], createdAt = now,
                                    room_name = JStr (''Room '' @ rid), isGlobal = False\<rparr>,
                 \<lparr>code = 200, content = Created rid (JStr (''Room '' @ rid))\<rparr>))"
proof (intro conjI allI impI)
  have p: "JSON_parse (if ([] :: string) \<noteq> [] then [] else ''{}'') = Inr (JObj [])"
    using assms by simp
  have g: "get_prop (JObj []) ''name'' = Inr None" by simp
  from create_room_stores [where JSON_parse = JSON_parse and bdy = "[]" and rid = rid
                             and now = now and rooms = rooms, OF p g]
       create_room_ok [where JSON_parse = JSON_parse and bdy = "[]" and rid = rid
                         and now = now and rooms = rooms, OF p g]
  show "create_room JSON_parse rid now rooms []
           = (Map_set rooms rid \<lparr>users = [], createdAt = now,
                                 room_name = JStr (''Room '' @ rid), isGlobal = False\<rparr>,
              \<lparr>code = 200, content = Created rid (JStr (''Room '' @ rid))\<rparr>)"
    by (simp add: prod_eq_iff)
next
  fix bdy fs
  assume a: "bdy \<noteq> [] \<and> JSON_parse bdy = Inr (JObj fs)
              \<and> (map_of fs ''name'' = None \<or> map_of fs ''name'' = Some (JStr []))"
  then have p: "JSON_parse (if bdy \<noteq> [] then bdy else ''{}'') = Inr (JObj fs)" by simp
  have g: "get_prop (JObj fs) ''name'' = Inr (map_of fs ''name'')" by simp
  from a have n: "(case map_of fs ''name'' of
                  Some n \<Rightarrow> if truthy n then n else JStr (''Room '' @ rid)
                | None \<Rightarrow> JStr (''Room '' @ rid)) = JStr (''Room '' @ rid)"
    by auto
  then have nt: "\<not> to_string_throws (case map_of fs ''name'' of
                  Some n \<Rightarrow> if truthy n then n else JStr (''Room '' @ rid)
                | None \<Rightarrow> JStr (''Room '' @ rid))"
    by simp
  from create_room_stores [where JSON_parse = JSON_parse and bdy = bdy and rid = rid
                             and now = now and rooms = rooms, OF p g]
       create_room_ok [where JSON_parse = JSON_parse and bdy = bdy and rid = rid
                         and now = now and rooms = rooms, OF p g nt]
  show "create_room JSON_parse rid now rooms bdy
              = (Map_set rooms rid \<lparr>users = [], createdAt = now,
                                    room_name = JStr (''Room '' @ rid), isGlobal = False\<rparr>,
                 \<lparr>code = 200, content = Created rid (JStr (''Room '' @ rid))\<rparr>)"
    by (simp add: prod_eq_iff n)
qed

theorem create_room_default_name_witness:
  "sample_parse ''{}'' = Inr (JObj [])
   \<and> create_room sample_parse ''DEF456'' 5 [] []
        = ([(''DEF456'', \<lparr>users = [], createdAt = 5, room_name = JStr ''Room DEF456'',
                          isGlobal = False\<rparr>)],
           \<lparr>code = 200, content = Created ''DEF456'' (JStr ''Room DEF456'')\<rparr>)
   \<and> sample_blank_text \<noteq> []
   \<and> sample_parse sample_blank_text = Inr (JObj [(''name'', JStr [])])
   \<and> map_of [(''name'', JStr [])] ''name'' = Some (JStr [])
   \<and> create_room sample_parse ''DEF456'' 5 [] sample_blank_text
        = ([(''DEF456'', \<lparr>users = [], createdAt = 5, room_name = JStr ''Room DEF456'',
                          isGlobal = False\<rparr>)],
           \<lparr>code = 200, content = Created ''DEF456'' (JStr ''Room DEF456'')\<rparr>)"
proof -
  have p0: "sample_parse ''{}'' = Inr (JObj [])"
    by (simp add: sample_parse_def)
  have ne: "sample_blank_text \<noteq> []"
    by (simp add: sample_blank_text_def)
  have p1: "sample_parse sample_blank_text = Inr (JObj [(''name'', JStr [])])"
    by (simp add: sample_parse_def sample_blank_text_def sample_update_text_def quoted_def)
  have m: "map_of [(''name'', JStr [])] ''name'' = Some (JStr [])" by simp
  note t = create_room_default_name
             [where JSON_parse = sample_parse and rid = "''DEF456''" and now = 5
                and rooms = "[]", OF p0]
  have c1: "create_room sample_parse ''DEF456'' 5 [] []
        = ([(''DEF456'', \<lparr>users = [], createdAt = 5, room_name = JStr ''Room DEF456'',
                          isGlobal = False\<rparr>)],
           \<lparr>code = 200, content = Created ''DEF456'' (JStr ''Room DEF456'')\<rparr>)"
    using t [THEN conjunct1] by simp
  have c2: "create_room sample_parse ''DEF456'' 5 [] sample_blank_text
        = ([(''DEF456'', \<lparr>users = [], createdAt = 5, room_name = JStr ''Room DEF456'',
                          isGlobal = False\<rparr>)],
           \<lparr>code = 200, content = Created ''DEF456'' (JStr ''Room DEF456'')\<rparr>)"
    using t [THEN conjunct2, rule_format, of sample_blank_text "[(''name'', JStr [])]"] ne p1 m
    by simp
  from p0 c1 ne p1 m c2 show ?thesis by (intro conjI)
qed

end
